theory Spec2Isabelle
  imports Main
begin

section \<open>TaskFlow: the relational schema, its row-level policies and triggers\<close>

text \<open>
  The development embeds the migration
  \<^verbatim>\<open>supabase/migrations/20260219002532_ef97bcca-82eb-4762-99c1-e9b4a2492b54.sql\<close>
  and the client functions that write to the tables it declares
  (\<^verbatim>\<open>saveTask\<close>, \<^verbatim>\<open>toggleStar\<close>, \<^verbatim>\<open>toggleStatus\<close>, \<^verbatim>\<open>deleteTask\<close> of the tasks view,
  \<^verbatim>\<open>promoteToAdmin\<close> of the admin view).

  A database state is a record of tables, a table is the list of its rows in insertion
  order, and a statement is a function from a state to an error or a new state. A
  statement that fails stores nothing: the state before it stays the current one.
\<close>

subsection \<open>Column types and enumerations\<close>

text \<open>
  \<^verbatim>\<open>UUID\<close> values are kept as the text the client sends, timestamps and dates as integers
  (a count of clock ticks and of days). A column without \<^verbatim>\<open>NOT NULL\<close> is an \<open>option\<close>,
  with \<open>None\<close> for SQL \<^verbatim>\<open>NULL\<close>.
\<close>

type_synonym uuid = string
type_synonym timestamptz = int
type_synonym date = int

datatype app_role = Admin | User

datatype task_priority = Low | Medium | High | Urgent

datatype task_status = Pending | In_progress | Completed | Cancelled

subsection \<open>Tables\<close>

text \<open>
  The three columns of \<^verbatim>\<open>auth.users\<close> that the migration reads. \<^verbatim>\<open>raw_user_meta_data\<close>
  is a JSON object; the map gives, for a key, what \<^verbatim>\<open>->>\<close> returns for it: the text of
  the value, or \<open>None\<close> when the key is absent, the value is JSON null or the whole
  column is \<^verbatim>\<open>NULL\<close>.
\<close>

record auth_user =
  au_id :: uuid
  au_email :: "string option"
  au_raw_user_meta_data :: "string \<rightharpoonup> string"

record profile =
  p_id :: uuid
  p_display_name :: "string option"
  p_avatar_url :: "string option"
  p_bio :: "string option"
  p_created_at :: timestamptz
  p_updated_at :: timestamptz

record user_role =
  ur_id :: uuid
  ur_user_id :: uuid
  ur_role :: app_role
  ur_created_at :: timestamptz

record category =
  c_id :: uuid
  c_user_id :: uuid
  c_name :: string
  c_color :: string
  c_icon :: "string option"
  c_created_at :: timestamptz
  c_updated_at :: timestamptz

text \<open>
  \<^verbatim>\<open>due_date\<close> holds the timestamp text as the client sent it; no property below depends on it.
\<close>

record task =
  t_id :: uuid
  t_user_id :: uuid
  t_category_id :: "uuid option"
  t_title :: string
  t_description :: "string option"
  t_status :: task_status
  t_priority :: task_priority
  t_due_date :: "string option"
  t_completed_at :: "timestamptz option"
  t_tags :: "string list option"
  t_is_starred :: "bool option"
  t_sort_order :: "int option"
  t_created_at :: timestamptz
  t_updated_at :: timestamptz

record subtask =
  st_id :: uuid
  st_task_id :: uuid
  st_user_id :: uuid
  st_title :: string
  st_is_completed :: "bool option"
  st_sort_order :: "int option"
  st_created_at :: timestamptz
  st_updated_at :: timestamptz

record reminder =
  rm_id :: uuid
  rm_task_id :: uuid
  rm_user_id :: uuid
  rm_remind_at :: timestamptz
  rm_is_sent :: "bool option"
  rm_message :: "string option"
  rm_created_at :: timestamptz

record notification =
  n_id :: uuid
  n_user_id :: uuid
  n_title :: string
  n_body :: "string option"
  n_type :: "string option"
  n_is_read :: "bool option"
  n_task_id :: "uuid option"
  n_created_at :: timestamptz

record analytics_day =
  a_id :: uuid
  a_user_id :: uuid
  a_date :: date
  a_tasks_created :: "int option"
  a_tasks_completed :: "int option"
  a_tasks_cancelled :: "int option"
  a_focus_minutes :: "int option"
  a_streak_days :: "int option"
  a_created_at :: timestamptz

record db =
  auth_users :: "auth_user list"
  profiles :: "profile list"
  user_roles :: "user_role list"
  categories :: "category list"
  tasks :: "task list"
  subtasks :: "subtask list"
  reminders :: "reminder list"
  notifications :: "notification list"
  analytics :: "analytics_day list"

definition empty_db :: db where
  "empty_db = \<lparr>auth_users = [], profiles = [], user_roles = [], categories = [],
     tasks = [], subtasks = [], reminders = [], notifications = [], analytics = []\<rparr>"

datatype table_name =
  Profiles | UserRoles | Categories | Tasks | Subtasks | Reminders | Notifications | Analytics

datatype error = RlsViolation | UniqueViolation | ForeignKeyViolation

subsection \<open>Declared constraints\<close>

text \<open>
  \<open>unique_ok\<close> has one conjunct for each \<^verbatim>\<open>PRIMARY KEY\<close> and each \<^verbatim>\<open>UNIQUE\<close> of the
  migration, \<open>fk_ok\<close> one for each \<^verbatim>\<open>REFERENCES\<close>. \<^verbatim>\<open>NOT NULL\<close> is in the column types.
\<close>

definition unique_ok :: "db \<Rightarrow> bool" where
  "unique_ok d \<longleftrightarrow>
     distinct (map au_id (auth_users d)) \<and>
     distinct (map p_id (profiles d)) \<and>
     distinct (map ur_id (user_roles d)) \<and>
     distinct (map (\<lambda>r. (ur_user_id r, ur_role r)) (user_roles d)) \<and>
     distinct (map c_id (categories d)) \<and>
     distinct (map t_id (tasks d)) \<and>
     distinct (map st_id (subtasks d)) \<and>
     distinct (map rm_id (reminders d)) \<and>
     distinct (map n_id (notifications d)) \<and>
     distinct (map a_id (analytics d)) \<and>
     distinct (map (\<lambda>r. (a_user_id r, a_date r)) (analytics d))"

definition user_exists :: "db \<Rightarrow> uuid \<Rightarrow> bool" where
  "user_exists d u \<longleftrightarrow> u \<in> set (map au_id (auth_users d))"

definition task_exists :: "db \<Rightarrow> uuid \<Rightarrow> bool" where
  "task_exists d t \<longleftrightarrow> t \<in> set (map t_id (tasks d))"

definition category_exists :: "db \<Rightarrow> uuid \<Rightarrow> bool" where
  "category_exists d c \<longleftrightarrow> c \<in> set (map c_id (categories d))"

definition fk_ok :: "db \<Rightarrow> bool" where
  "fk_ok d \<longleftrightarrow>
     list_all (\<lambda>r. user_exists d (p_id r)) (profiles d) \<and>
     list_all (\<lambda>r. user_exists d (ur_user_id r)) (user_roles d) \<and>
     list_all (\<lambda>r. user_exists d (c_user_id r)) (categories d) \<and>
     list_all (\<lambda>r. user_exists d (t_user_id r)) (tasks d) \<and>
     list_all (\<lambda>r. case t_category_id r of None \<Rightarrow> True | Some c \<Rightarrow> category_exists d c) (tasks d) \<and>
     list_all (\<lambda>r. task_exists d (st_task_id r)) (subtasks d) \<and>
     list_all (\<lambda>r. user_exists d (st_user_id r)) (subtasks d) \<and>
     list_all (\<lambda>r. task_exists d (rm_task_id r)) (reminders d) \<and>
     list_all (\<lambda>r. user_exists d (rm_user_id r)) (reminders d) \<and>
     list_all (\<lambda>r. user_exists d (n_user_id r)) (notifications d) \<and>
     list_all (\<lambda>r. case n_task_id r of None \<Rightarrow> True | Some t \<Rightarrow> task_exists d t) (notifications d) \<and>
     list_all (\<lambda>r. user_exists d (a_user_id r)) (analytics d)"

text \<open>
  A statement that inserts or updates rows is checked against the declared constraints
  before its result is stored: a duplicate key is reported first (the unique indexes are
  checked as each row is written), a dangling reference second (the foreign keys are
  checked when the statement ends).
\<close>

definition commit :: "db \<Rightarrow> error + db" where
  "commit d =
     (if \<not> unique_ok d then Inl UniqueViolation
      else if \<not> fk_ok d then Inl ForeignKeyViolation
      else Inr d)"

subsection \<open>The role-check predicate\<close>

text \<open>
  \<^verbatim>\<open>has_role\<close> is \<^verbatim>\<open>SELECT EXISTS (SELECT 1 FROM public.user_roles WHERE user_id = _user_id
  AND role = _role)\<close>, declared \<^verbatim>\<open>STABLE SECURITY DEFINER\<close>: it reads the table with the
  rights of its owner, for whom row-level security is not applied, so it ranges over all
  stored rows whoever calls it, and it returns a boolean and no state.
\<close>

definition has_role :: "db \<Rightarrow> uuid \<Rightarrow> app_role \<Rightarrow> bool" where
  "has_role d user_id role =
     list_ex (\<lambda>r. ur_user_id r = user_id \<and> ur_role r = role) (user_roles d)"

subsection \<open>Row-level security policies\<close>

datatype command = Select | Insert | Update | Delete

datatype policy_for = FOR_ALL | FOR_SELECT | FOR_INSERT | FOR_UPDATE | FOR_DELETE

text \<open>
  The two expressions the migration's policies use: \<^verbatim>\<open>auth.uid() = user_id\<close>
  (\<^verbatim>\<open>auth.uid() = id\<close> on \<^verbatim>\<open>profiles\<close>) and \<^verbatim>\<open>public.has_role(auth.uid(), 'admin')\<close>.
\<close>

datatype policy_expr = Uid_eq_owner | Has_role_uid app_role

record policy =
  pol_name :: string
  pol_table :: table_name
  pol_for :: policy_for
  pol_using :: "policy_expr option"
  pol_with_check :: "policy_expr option"

definition policies :: "policy list" where
  "policies =
   [\<lparr>pol_name = ''Users can view their own profile'', pol_table = Profiles,
      pol_for = FOR_SELECT, pol_using = Some Uid_eq_owner, pol_with_check = None\<rparr>,
    \<lparr>pol_name = ''Users can update their own profile'', pol_table = Profiles,
      pol_for = FOR_UPDATE, pol_using = Some Uid_eq_owner, pol_with_check = None\<rparr>,
    \<lparr>pol_name = ''Users can insert their own profile'', pol_table = Profiles,
      pol_for = FOR_INSERT, pol_using = None, pol_with_check = Some Uid_eq_owner\<rparr>,
    \<lparr>pol_name = ''Users can view their own roles'', pol_table = UserRoles,
      pol_for = FOR_SELECT, pol_using = Some Uid_eq_owner, pol_with_check = None\<rparr>,
    \<lparr>pol_name = ''Admins can manage all roles'', pol_table = UserRoles,
      pol_for = FOR_ALL, pol_using = Some (Has_role_uid Admin), pol_with_check = None\<rparr>,
    \<lparr>pol_name = ''Users can CRUD their own categories'', pol_table = Categories,
      pol_for = FOR_ALL, pol_using = Some Uid_eq_owner, pol_with_check = None\<rparr>,
    \<lparr>pol_name = ''Admins can view all categories'', pol_table = Categories,
      pol_for = FOR_SELECT, pol_using = Some (Has_role_uid Admin), pol_with_check = None\<rparr>,
    \<lparr>pol_name = ''Users can CRUD their own tasks'', pol_table = Tasks,
      pol_for = FOR_ALL, pol_using = Some Uid_eq_owner, pol_with_check = None\<rparr>,
    \<lparr>pol_name = ''Admins can view all tasks'', pol_table = Tasks,
      pol_for = FOR_SELECT, pol_using = Some (Has_role_uid Admin), pol_with_check = None\<rparr>,
    \<lparr>pol_name = ''Users can CRUD their own subtasks'', pol_table = Subtasks,
      pol_for = FOR_ALL, pol_using = Some Uid_eq_owner, pol_with_check = None\<rparr>,
    \<lparr>pol_name = ''Users can CRUD their own reminders'', pol_table = Reminders,
      pol_for = FOR_ALL, pol_using = Some Uid_eq_owner, pol_with_check = None\<rparr>,
    \<lparr>pol_name = ''Users can view their own notifications'', pol_table = Notifications,
      pol_for = FOR_SELECT, pol_using = Some Uid_eq_owner, pol_with_check = None\<rparr>,
    \<lparr>pol_name = ''Users can update their own notifications'', pol_table = Notifications,
      pol_for = FOR_UPDATE, pol_using = Some Uid_eq_owner, pol_with_check = None\<rparr>,
    \<lparr>pol_name = ''Users can delete their own notifications'', pol_table = Notifications,
      pol_for = FOR_DELETE, pol_using = Some Uid_eq_owner, pol_with_check = None\<rparr>,
    \<lparr>pol_name = ''System can insert notifications'', pol_table = Notifications,
      pol_for = FOR_INSERT, pol_using = None, pol_with_check = Some Uid_eq_owner\<rparr>,
    \<lparr>pol_name = ''Users can CRUD their own analytics'', pol_table = Analytics,
      pol_for = FOR_ALL, pol_using = Some Uid_eq_owner, pol_with_check = None\<rparr>,
    \<lparr>pol_name = ''Admins can view all analytics'', pol_table = Analytics,
      pol_for = FOR_SELECT, pol_using = Some (Has_role_uid Admin), pol_with_check = None\<rparr>]"

fun policy_covers :: "policy_for \<Rightarrow> command \<Rightarrow> bool" where
  "policy_covers FOR_ALL c = True"
| "policy_covers FOR_SELECT c = (c = Select)"
| "policy_covers FOR_INSERT c = (c = Insert)"
| "policy_covers FOR_UPDATE c = (c = Update)"
| "policy_covers FOR_DELETE c = (c = Delete)"

text \<open>
  The requester is \<^verbatim>\<open>auth.uid()\<close>: \<open>Some\<close> of the signed-in identity, or \<open>None\<close> (SQL
  \<^verbatim>\<open>NULL\<close>) for a request without a session. A comparison with \<^verbatim>\<open>NULL\<close> is not true, and
  \<^verbatim>\<open>has_role(NULL, r)\<close> finds no row, so neither expression holds for \<open>None\<close>.
  \<open>owner\<close> is the row's \<^verbatim>\<open>user_id\<close> (its \<^verbatim>\<open>id\<close> on \<^verbatim>\<open>profiles\<close>).
\<close>

fun eval_policy_expr :: "db \<Rightarrow> uuid option \<Rightarrow> uuid \<Rightarrow> policy_expr \<Rightarrow> bool" where
  "eval_policy_expr d uid owner Uid_eq_owner = (uid = Some owner)"
| "eval_policy_expr d uid owner (Has_role_uid r) =
     (case uid of None \<Rightarrow> False | Some u \<Rightarrow> has_role d u r)"

text \<open>
  Every table has row-level security enabled and every policy is permissive, so the
  policies of a table that cover a command are combined with \<^verbatim>\<open>OR\<close>, and a command no
  policy covers is denied. \<open>using_ok\<close> is the test on a stored row (\<^verbatim>\<open>SELECT\<close>, \<^verbatim>\<open>UPDATE\<close>,
  \<^verbatim>\<open>DELETE\<close>), \<open>check_ok\<close> the test on a row to be stored (\<^verbatim>\<open>INSERT\<close>, \<^verbatim>\<open>UPDATE\<close>); a
  policy without \<^verbatim>\<open>WITH CHECK\<close> uses its \<^verbatim>\<open>USING\<close> expression for both.
\<close>

definition using_ok :: "db \<Rightarrow> uuid option \<Rightarrow> command \<Rightarrow> table_name \<Rightarrow> uuid \<Rightarrow> bool" where
  "using_ok d uid c T owner =
     list_ex (\<lambda>p. pol_table p = T \<and> policy_covers (pol_for p) c \<and>
        (case pol_using p of None \<Rightarrow> True | Some e \<Rightarrow> eval_policy_expr d uid owner e)) policies"

definition check_ok :: "db \<Rightarrow> uuid option \<Rightarrow> command \<Rightarrow> table_name \<Rightarrow> uuid \<Rightarrow> bool" where
  "check_ok d uid c T owner =
     list_ex (\<lambda>p. pol_table p = T \<and> policy_covers (pol_for p) c \<and>
        (case pol_with_check p of
           Some e \<Rightarrow> eval_policy_expr d uid owner e
         | None \<Rightarrow> (case pol_using p of None \<Rightarrow> True | Some e \<Rightarrow> eval_policy_expr d uid owner e)))
       policies"

text \<open>A table grants admin read when one of its policies covering \<^verbatim>\<open>SELECT\<close> tests the admin role.\<close>

definition grants_admin_read :: "table_name \<Rightarrow> bool" where
  "grants_admin_read T =
     list_ex (\<lambda>p. pol_table p = T \<and> policy_covers (pol_for p) Select \<and>
        pol_using p = Some (Has_role_uid Admin)) policies"

subsection \<open>Reading through the policies\<close>

text \<open>
  A \<^verbatim>\<open>SELECT\<close> returns the stored rows that pass the table's \<^verbatim>\<open>SELECT\<close> policies and the
  query's own filter; the policies filter, they raise nothing. \<open>row\<close> lets one query
  function serve all eight tables.
\<close>

datatype row =
  ProfileRow profile | UserRoleRow user_role | CategoryRow category | TaskRow task
| SubtaskRow subtask | ReminderRow reminder | NotificationRow notification
| AnalyticsRow analytics_day

fun rows_of :: "db \<Rightarrow> table_name \<Rightarrow> row list" where
  "rows_of d Profiles = map ProfileRow (profiles d)"
| "rows_of d UserRoles = map UserRoleRow (user_roles d)"
| "rows_of d Categories = map CategoryRow (categories d)"
| "rows_of d Tasks = map TaskRow (tasks d)"
| "rows_of d Subtasks = map SubtaskRow (subtasks d)"
| "rows_of d Reminders = map ReminderRow (reminders d)"
| "rows_of d Notifications = map NotificationRow (notifications d)"
| "rows_of d Analytics = map AnalyticsRow (analytics d)"

fun owner_of :: "row \<Rightarrow> uuid" where
  "owner_of (ProfileRow r) = p_id r"
| "owner_of (UserRoleRow r) = ur_user_id r"
| "owner_of (CategoryRow r) = c_user_id r"
| "owner_of (TaskRow r) = t_user_id r"
| "owner_of (SubtaskRow r) = st_user_id r"
| "owner_of (ReminderRow r) = rm_user_id r"
| "owner_of (NotificationRow r) = n_user_id r"
| "owner_of (AnalyticsRow r) = a_user_id r"

definition select_from ::
  "db \<Rightarrow> uuid option \<Rightarrow> table_name \<Rightarrow> (row \<Rightarrow> bool) \<Rightarrow> error + row list" where
  "select_from d uid T wh =
     Inr (filter (\<lambda>r. using_ok d uid Select T (owner_of r) \<and> wh r) (rows_of d T))"

text \<open>The state that differs from \<open>d\<close> only in that the row is not stored.\<close>

fun without_row :: "row \<Rightarrow> db \<Rightarrow> db" where
  "without_row (ProfileRow r) d = d\<lparr>profiles := removeAll r (profiles d)\<rparr>"
| "without_row (UserRoleRow r) d = d\<lparr>user_roles := removeAll r (user_roles d)\<rparr>"
| "without_row (CategoryRow r) d = d\<lparr>categories := removeAll r (categories d)\<rparr>"
| "without_row (TaskRow r) d = d\<lparr>tasks := removeAll r (tasks d)\<rparr>"
| "without_row (SubtaskRow r) d = d\<lparr>subtasks := removeAll r (subtasks d)\<rparr>"
| "without_row (ReminderRow r) d = d\<lparr>reminders := removeAll r (reminders d)\<rparr>"
| "without_row (NotificationRow r) d = d\<lparr>notifications := removeAll r (notifications d)\<rparr>"
| "without_row (AnalyticsRow r) d = d\<lparr>analytics := removeAll r (analytics d)\<rparr>"

subsection \<open>Writing through the policies\<close>

text \<open>
  An \<^verbatim>\<open>UPDATE\<close> touches the stored rows that match its \<^verbatim>\<open>WHERE\<close> clause and pass the
  \<^verbatim>\<open>UPDATE\<close> policies' \<^verbatim>\<open>USING\<close>; the others are skipped in silence. \<open>upd\<close> is what
  happens to a touched row (the \<^verbatim>\<open>SET\<close> list, then the \<^verbatim>\<open>BEFORE UPDATE\<close> trigger); the
  row it yields must pass \<^verbatim>\<open>WITH CHECK\<close>, or the statement fails. A \<^verbatim>\<open>DELETE\<close> removes
  the rows that match and pass the \<^verbatim>\<open>DELETE\<close> policies. The policies are evaluated on
  the state before the statement.
\<close>

definition touched ::
  "db \<Rightarrow> uuid option \<Rightarrow> command \<Rightarrow> table_name \<Rightarrow> ('r \<Rightarrow> uuid) \<Rightarrow> ('r \<Rightarrow> bool) \<Rightarrow> 'r \<Rightarrow> bool" where
  "touched d uid c T owner wh r \<longleftrightarrow> wh r \<and> using_ok d uid c T (owner r)"

definition rls_update ::
  "db \<Rightarrow> uuid option \<Rightarrow> table_name \<Rightarrow> ('r \<Rightarrow> uuid) \<Rightarrow> ('r \<Rightarrow> bool) \<Rightarrow> ('r \<Rightarrow> 'r) \<Rightarrow> 'r list
     \<Rightarrow> error + 'r list" where
  "rls_update d uid T owner wh upd rows =
     (if list_ex (\<lambda>r. touched d uid Update T owner wh r \<and>
                      \<not> check_ok d uid Update T (owner (upd r))) rows
      then Inl RlsViolation
      else Inr (map (\<lambda>r. if touched d uid Update T owner wh r then upd r else r) rows))"

definition rls_delete ::
  "db \<Rightarrow> uuid option \<Rightarrow> table_name \<Rightarrow> ('r \<Rightarrow> uuid) \<Rightarrow> ('r \<Rightarrow> bool) \<Rightarrow> 'r list \<Rightarrow> 'r list" where
  "rls_delete d uid T owner wh rows =
     filter (\<lambda>r. \<not> touched d uid Delete T owner wh r) rows"

subsubsection \<open>The timestamp trigger\<close>

text \<open>
  \<^verbatim>\<open>update_updated_at_column\<close> is \<^verbatim>\<open>NEW.updated_at = now(); RETURN NEW;\<close>. It is attached
  \<^verbatim>\<open>BEFORE UPDATE ... FOR EACH ROW\<close> to four tables; each trigger below is that function
  at the table's row type, under the trigger's name.
\<close>

definition update_profiles_updated_at :: "timestamptz \<Rightarrow> profile \<Rightarrow> profile" where
  "update_profiles_updated_at now NEW = NEW\<lparr>p_updated_at := now\<rparr>"

definition update_categories_updated_at :: "timestamptz \<Rightarrow> category \<Rightarrow> category" where
  "update_categories_updated_at now NEW = NEW\<lparr>c_updated_at := now\<rparr>"

definition update_tasks_updated_at :: "timestamptz \<Rightarrow> task \<Rightarrow> task" where
  "update_tasks_updated_at now NEW = NEW\<lparr>t_updated_at := now\<rparr>"

definition update_subtasks_updated_at :: "timestamptz \<Rightarrow> subtask \<Rightarrow> subtask" where
  "update_subtasks_updated_at now NEW = NEW\<lparr>st_updated_at := now\<rparr>"

subsubsection \<open>Statements\<close>

text \<open>
  In an update, \<open>wh\<close> is the \<^verbatim>\<open>WHERE\<close> clause, \<open>assign\<close> the \<^verbatim>\<open>SET\<close> list as a function of
  the old row (it may assign any column, \<^verbatim>\<open>updated_at\<close> included) and \<open>now\<close> the value
  of \<^verbatim>\<open>now()\<close> in the statement's transaction. In an insert, the row carries every
  column: those the caller gave and the defaults of the others.
\<close>

definition update_profiles ::
  "db \<Rightarrow> uuid option \<Rightarrow> (profile \<Rightarrow> bool) \<Rightarrow> (profile \<Rightarrow> profile) \<Rightarrow> timestamptz \<Rightarrow> error + db" where
  "update_profiles d uid wh assign now =
     (case rls_update d uid Profiles p_id wh (\<lambda>r. update_profiles_updated_at now (assign r)) (profiles d) of
        Inl e \<Rightarrow> Inl e
      | Inr rows \<Rightarrow> commit (d\<lparr>profiles := rows\<rparr>))"

definition update_categories ::
  "db \<Rightarrow> uuid option \<Rightarrow> (category \<Rightarrow> bool) \<Rightarrow> (category \<Rightarrow> category) \<Rightarrow> timestamptz \<Rightarrow> error + db" where
  "update_categories d uid wh assign now =
     (case rls_update d uid Categories c_user_id wh (\<lambda>r. update_categories_updated_at now (assign r)) (categories d) of
        Inl e \<Rightarrow> Inl e
      | Inr rows \<Rightarrow> commit (d\<lparr>categories := rows\<rparr>))"

definition update_tasks ::
  "db \<Rightarrow> uuid option \<Rightarrow> (task \<Rightarrow> bool) \<Rightarrow> (task \<Rightarrow> task) \<Rightarrow> timestamptz \<Rightarrow> error + db" where
  "update_tasks d uid wh assign now =
     (case rls_update d uid Tasks t_user_id wh (\<lambda>r. update_tasks_updated_at now (assign r)) (tasks d) of
        Inl e \<Rightarrow> Inl e
      | Inr rows \<Rightarrow> commit (d\<lparr>tasks := rows\<rparr>))"

definition update_subtasks ::
  "db \<Rightarrow> uuid option \<Rightarrow> (subtask \<Rightarrow> bool) \<Rightarrow> (subtask \<Rightarrow> subtask) \<Rightarrow> timestamptz \<Rightarrow> error + db" where
  "update_subtasks d uid wh assign now =
     (case rls_update d uid Subtasks st_user_id wh (\<lambda>r. update_subtasks_updated_at now (assign r)) (subtasks d) of
        Inl e \<Rightarrow> Inl e
      | Inr rows \<Rightarrow> commit (d\<lparr>subtasks := rows\<rparr>))"

definition insert_tasks :: "db \<Rightarrow> uuid option \<Rightarrow> task \<Rightarrow> error + db" where
  "insert_tasks d uid row =
     (if \<not> check_ok d uid Insert Tasks (t_user_id row) then Inl RlsViolation
      else commit (d\<lparr>tasks := tasks d @ [row]\<rparr>))"

text \<open>
  Deleting tasks runs the referential actions of the three tables that reference
  \<^verbatim>\<open>tasks(id)\<close>: \<^verbatim>\<open>subtasks.task_id\<close> and \<^verbatim>\<open>reminders.task_id\<close> are \<^verbatim>\<open>ON DELETE CASCADE\<close>,
  \<^verbatim>\<open>notifications.task_id\<close> is \<^verbatim>\<open>ON DELETE SET NULL\<close>. The actions are the store's own and
  are not filtered by the requester's policies; \<^verbatim>\<open>notifications\<close> has no update trigger.
\<close>

definition delete_tasks :: "db \<Rightarrow> uuid option \<Rightarrow> (task \<Rightarrow> bool) \<Rightarrow> error + db" where
  "delete_tasks d uid wh =
     (let gone = map t_id (filter (touched d uid Delete Tasks t_user_id wh) (tasks d)) in
      Inr (d\<lparr>tasks := rls_delete d uid Tasks t_user_id wh (tasks d),
             subtasks := filter (\<lambda>s. st_task_id s \<notin> set gone) (subtasks d),
             reminders := filter (\<lambda>r. rm_task_id r \<notin> set gone) (reminders d),
             notifications :=
               map (\<lambda>n. case n_task_id n of
                           None \<Rightarrow> n
                         | Some t \<Rightarrow> if t \<in> set gone then n\<lparr>n_task_id := None\<rparr> else n)
                   (notifications d)\<rparr>))"

definition insert_analytics :: "db \<Rightarrow> uuid option \<Rightarrow> analytics_day \<Rightarrow> error + db" where
  "insert_analytics d uid row =
     (if \<not> check_ok d uid Insert Analytics (a_user_id row) then Inl RlsViolation
      else commit (d\<lparr>analytics := analytics d @ [row]\<rparr>))"

definition insert_user_roles :: "db \<Rightarrow> uuid option \<Rightarrow> user_role \<Rightarrow> error + db" where
  "insert_user_roles d uid row =
     (if \<not> check_ok d uid Insert UserRoles (ur_user_id row) then Inl RlsViolation
      else commit (d\<lparr>user_roles := user_roles d @ [row]\<rparr>))"

definition update_user_roles ::
  "db \<Rightarrow> uuid option \<Rightarrow> (user_role \<Rightarrow> bool) \<Rightarrow> (user_role \<Rightarrow> user_role) \<Rightarrow> error + db" where
  "update_user_roles d uid wh assign =
     (case rls_update d uid UserRoles ur_user_id wh assign (user_roles d) of
        Inl e \<Rightarrow> Inl e
      | Inr rows \<Rightarrow> commit (d\<lparr>user_roles := rows\<rparr>))"

definition delete_user_roles :: "db \<Rightarrow> uuid option \<Rightarrow> (user_role \<Rightarrow> bool) \<Rightarrow> error + db" where
  "delete_user_roles d uid wh =
     Inr (d\<lparr>user_roles := rls_delete d uid UserRoles ur_user_id wh (user_roles d)\<rparr>)"

text \<open>
  The client library's \<^verbatim>\<open>upsert\<close> without an \<^verbatim>\<open>onConflict\<close> option is
  \<^verbatim>\<open>INSERT ... ON CONFLICT (id) DO UPDATE SET user_id = EXCLUDED.user_id, role =
  EXCLUDED.role\<close>: the conflict target is the primary key, and the assigned columns are
  those of the payload. The proposed row must pass the \<^verbatim>\<open>INSERT\<close> check in either case;
  on the update path the stored row must pass the \<^verbatim>\<open>UPDATE\<close> policies' \<^verbatim>\<open>USING\<close> and the
  merged row their \<^verbatim>\<open>WITH CHECK\<close>, and a failure there is an error, not a skip. A clash
  on \<^verbatim>\<open>UNIQUE (user_id, role)\<close> is not the conflict target and is reported by \<open>commit\<close>.
\<close>

definition upsert_user_roles :: "db \<Rightarrow> uuid option \<Rightarrow> user_role \<Rightarrow> error + db" where
  "upsert_user_roles d uid row =
     (if \<not> check_ok d uid Insert UserRoles (ur_user_id row) then Inl RlsViolation
      else if ur_id row \<in> set (map ur_id (user_roles d)) then
        (if list_ex (\<lambda>e. ur_id e = ur_id row \<and>
                         \<not> using_ok d uid Update UserRoles (ur_user_id e)) (user_roles d)
            \<or> \<not> check_ok d uid Update UserRoles (ur_user_id row)
         then Inl RlsViolation
         else commit (d\<lparr>user_roles :=
                 map (\<lambda>e. if ur_id e = ur_id row
                          then e\<lparr>ur_user_id := ur_user_id row, ur_role := ur_role row\<rparr> else e)
                     (user_roles d)\<rparr>))
      else commit (d\<lparr>user_roles := user_roles d @ [row]\<rparr>))"

subsection \<open>The new-identity trigger\<close>

text \<open>
  \<^verbatim>\<open>COALESCE\<close> returns its first argument that is not \<^verbatim>\<open>NULL\<close>, and \<^verbatim>\<open>NULL\<close> when all are.
  \<^verbatim>\<open>split_part(s, '@', 1)\<close> is the text of \<open>s\<close> before its first \<^verbatim>\<open>@\<close>, all of \<open>s\<close> when it
  has none, and \<^verbatim>\<open>NULL\<close> when \<open>s\<close> is.
\<close>

fun coalesce :: "'a option list \<Rightarrow> 'a option" where
  "coalesce [] = None"
| "coalesce (None # xs) = coalesce xs"
| "coalesce (Some x # xs) = Some x"

definition split_part_1 :: "string option \<Rightarrow> char \<Rightarrow> string option" where
  "split_part_1 s delim = map_option (takeWhile (\<lambda>c. c \<noteq> delim)) s"

text \<open>
  \<^verbatim>\<open>handle_new_user\<close> is \<^verbatim>\<open>SECURITY DEFINER\<close>: its two inserts are not subject to the
  policies, only to the constraints. The columns it does not list take their defaults:
  \<^verbatim>\<open>bio\<close> is \<^verbatim>\<open>NULL\<close>, the timestamps are \<^verbatim>\<open>now()\<close>, which is one value throughout the
  transaction, and the role row's \<^verbatim>\<open>id\<close> is \<^verbatim>\<open>gen_random_uuid()\<close>, here \<open>new_id\<close>.
\<close>

definition handle_new_user :: "db \<Rightarrow> auth_user \<Rightarrow> timestamptz \<Rightarrow> uuid \<Rightarrow> error + db" where
  "handle_new_user d NEW now new_id =
     (case commit (d\<lparr>profiles := profiles d @
               [\<lparr>p_id = au_id NEW,
                 p_display_name = coalesce [au_raw_user_meta_data NEW ''display_name'',
                                            au_raw_user_meta_data NEW ''full_name'',
                                            split_part_1 (au_email NEW) CHR ''@''],
                 p_avatar_url = au_raw_user_meta_data NEW ''avatar_url'',
                 p_bio = None, p_created_at = now, p_updated_at = now\<rparr>]\<rparr>) of
        Inl e \<Rightarrow> Inl e
      | Inr d1 \<Rightarrow>
          commit (d1\<lparr>user_roles := user_roles d1 @
               [\<lparr>ur_id = new_id, ur_user_id = au_id NEW, ur_role = User, ur_created_at = now\<rparr>]\<rparr>))"

text \<open>
  \<^verbatim>\<open>on_auth_user_created\<close> is \<^verbatim>\<open>AFTER INSERT ON auth.users FOR EACH ROW\<close>: creating an
  identity stores its \<^verbatim>\<open>auth.users\<close> row and then runs the trigger in the same
  transaction, so an error in the trigger undoes the creation.
\<close>

definition create_identity :: "db \<Rightarrow> auth_user \<Rightarrow> timestamptz \<Rightarrow> uuid \<Rightarrow> error + db" where
  "create_identity d NEW now new_id =
     (case commit (d\<lparr>auth_users := auth_users d @ [NEW]\<rparr>) of
        Inl e \<Rightarrow> Inl e
      | Inr d1 \<Rightarrow> handle_new_user d1 NEW now new_id)"

subsection \<open>The client's writes to \<^verbatim>\<open>tasks\<close>\<close>

text \<open>
  The tasks view keeps a form whose \<^verbatim>\<open>status\<close> and \<^verbatim>\<open>priority\<close> fields are set from the
  two select boxes (the four and four enumeration labels) or from a stored task, so they
  are kept at the enumeration types. The other fields are the strings and the flag of
  the source.
\<close>

record task_form =
  f_title :: string
  f_description :: string
  f_status :: task_status
  f_priority :: task_priority
  f_due_date :: string
  f_category_id :: string
  f_tags :: string
  f_is_starred :: bool

text \<open>
  \<^verbatim>\<open>String.prototype.trim\<close> on the white space of the ASCII range, \<^verbatim>\<open>s.split(",")\<close>, and
  \<^verbatim>\<open>s || null\<close> for a string (the empty string is the only falsy one).
\<close>

definition is_white_space :: "char \<Rightarrow> bool" where
  "is_white_space c \<longleftrightarrow> c \<in> set [CHR '' '', CHR 0x09, CHR 0x0A, CHR 0x0B, CHR 0x0C, CHR 0x0D]"

definition trim :: "string \<Rightarrow> string" where
  "trim s = rev (dropWhile is_white_space (rev (dropWhile is_white_space s)))"

fun split :: "char \<Rightarrow> string \<Rightarrow> string list" where
  "split sep [] = [[]]"
| "split sep (c # cs) =
     (if c = sep then [] # split sep cs
      else (case split sep cs of [] \<Rightarrow> [[c]] | w # ws \<Rightarrow> (c # w) # ws))"

definition or_null :: "string \<Rightarrow> string option" where
  "or_null s = (if s = [] then None else Some s)"

record task_payload =
  pl_title :: string
  pl_description :: "string option"
  pl_status :: task_status
  pl_priority :: task_priority
  pl_due_date :: "string option"
  pl_category_id :: "uuid option"
  pl_tags :: "string list"
  pl_is_starred :: bool
  pl_completed_at :: "timestamptz option"

text \<open>The \<^verbatim>\<open>payload\<close> object of \<^verbatim>\<open>saveTask\<close>; \<open>client_now\<close> is \<^verbatim>\<open>new Date()\<close>.\<close>

definition saveTask_payload :: "task_form \<Rightarrow> timestamptz \<Rightarrow> task_payload" where
  "saveTask_payload form client_now =
     \<lparr>pl_title = trim (f_title form),
      pl_description = or_null (f_description form),
      pl_status = f_status form,
      pl_priority = f_priority form,
      pl_due_date = or_null (f_due_date form),
      pl_category_id = or_null (f_category_id form),
      pl_tags = (if f_tags form \<noteq> [] then filter (\<lambda>t. t \<noteq> []) (map trim (split CHR '','' (f_tags form)))
                 else []),
      pl_is_starred = f_is_starred form,
      pl_completed_at = (if f_status form = Completed then Some client_now else None)\<rparr>"

text \<open>\<^verbatim>\<open>.update(payload)\<close> assigns the payload's nine columns.\<close>

definition assign_payload :: "task_payload \<Rightarrow> task \<Rightarrow> task" where
  "assign_payload pl r =
     r\<lparr>t_title := pl_title pl, t_description := pl_description pl, t_status := pl_status pl,
       t_priority := pl_priority pl, t_due_date := pl_due_date pl,
       t_category_id := pl_category_id pl, t_tags := Some (pl_tags pl),
       t_is_starred := Some (pl_is_starred pl), t_completed_at := pl_completed_at pl\<rparr>"

text \<open>
  \<^verbatim>\<open>.insert([{ ...payload, user_id: user.id }])\<close>: the row of the payload's columns and
  \<^verbatim>\<open>user_id\<close>, with the defaults of the four columns left out (\<^verbatim>\<open>gen_random_uuid()\<close>,
  \<open>0\<close>, and \<^verbatim>\<open>now()\<close> twice).
\<close>

definition payload_row :: "task_payload \<Rightarrow> uuid \<Rightarrow> uuid \<Rightarrow> timestamptz \<Rightarrow> task" where
  "payload_row pl user_id new_id db_now =
     \<lparr>t_id = new_id, t_user_id = user_id, t_category_id = pl_category_id pl,
      t_title = pl_title pl, t_description = pl_description pl, t_status = pl_status pl,
      t_priority = pl_priority pl, t_due_date = pl_due_date pl,
      t_completed_at = pl_completed_at pl, t_tags = Some (pl_tags pl),
      t_is_starred = Some (pl_is_starred pl), t_sort_order = Some 0,
      t_created_at = db_now, t_updated_at = db_now\<rparr>"

text \<open>
  \<open>user\<close> is the signed-in identity of the view, under which the request is sent; it
  is \<open>None\<close> when nobody is signed in. \<open>editingTask\<close> is the task being edited, or
  \<open>None\<close> when the dialog creates one. A function that returns before it sends a
  request yields the state as it is.
\<close>

definition saveTask ::
  "db \<Rightarrow> uuid option \<Rightarrow> task_form \<Rightarrow> task option \<Rightarrow> timestamptz \<Rightarrow> timestamptz \<Rightarrow> uuid
     \<Rightarrow> error + db" where
  "saveTask d user form editingTask client_now db_now new_id =
     (case user of
        None \<Rightarrow> Inr d
      | Some u \<Rightarrow>
          if trim (f_title form) = [] then Inr d
          else
            (let payload = saveTask_payload form client_now in
             case editingTask of
               Some et \<Rightarrow> update_tasks d user (\<lambda>r. t_id r = t_id et) (assign_payload payload) db_now
             | None \<Rightarrow> insert_tasks d user (payload_row payload u new_id db_now)))"

text \<open>\<^verbatim>\<open>!task.is_starred\<close> is true for \<^verbatim>\<open>false\<close> and for \<^verbatim>\<open>null\<close>.\<close>

definition toggleStar :: "db \<Rightarrow> uuid option \<Rightarrow> task \<Rightarrow> timestamptz \<Rightarrow> error + db" where
  "toggleStar d user task db_now =
     update_tasks d user (\<lambda>r. t_id r = t_id task)
       (\<lambda>r. r\<lparr>t_is_starred := Some (t_is_starred task \<noteq> Some True)\<rparr>) db_now"

definition toggleStatus ::
  "db \<Rightarrow> uuid option \<Rightarrow> task \<Rightarrow> timestamptz \<Rightarrow> timestamptz \<Rightarrow> error + db" where
  "toggleStatus d user task client_now db_now =
     (let newStatus = (if t_status task = Completed then Pending else Completed) in
      update_tasks d user (\<lambda>r. t_id r = t_id task)
        (\<lambda>r. r\<lparr>t_status := newStatus,
                t_completed_at := (if newStatus = Completed then Some client_now else None)\<rparr>)
        db_now)"

definition deleteTask :: "db \<Rightarrow> uuid option \<Rightarrow> uuid \<Rightarrow> error + db" where
  "deleteTask d user task_id = delete_tasks d user (\<lambda>r. t_id r = task_id)"

text \<open>
  The state after a request: the new one, or the old one when the request failed (the
  client shows the error or drops it, and sends nothing more).
\<close>

definition stored :: "db \<Rightarrow> error + db \<Rightarrow> db" where
  "stored d res = (case res of Inl e \<Rightarrow> d | Inr d' \<Rightarrow> d')"

datatype app_write =
  SaveTask "uuid option" task_form "task option" timestamptz timestamptz uuid
| ToggleStar "uuid option" task timestamptz
| ToggleStatus "uuid option" task timestamptz timestamptz
| DeleteTask "uuid option" uuid

fun app_step :: "db \<Rightarrow> app_write \<Rightarrow> db" where
  "app_step d (SaveTask user form editingTask client_now db_now new_id) =
     stored d (saveTask d user form editingTask client_now db_now new_id)"
| "app_step d (ToggleStar user task db_now) = stored d (toggleStar d user task db_now)"
| "app_step d (ToggleStatus user task client_now db_now) =
     stored d (toggleStatus d user task client_now db_now)"
| "app_step d (DeleteTask user task_id) = stored d (deleteTask d user task_id)"

definition app_run :: "db \<Rightarrow> app_write list \<Rightarrow> db" where
  "app_run d ws = foldl app_step d ws"

text \<open>The invariant on a task row, and on the table.\<close>

definition completion_consistent :: "task \<Rightarrow> bool" where
  "completion_consistent t \<longleftrightarrow> (t_completed_at t \<noteq> None) = (t_status t = Completed)"

definition tasks_consistent :: "db \<Rightarrow> bool" where
  "tasks_consistent d \<longleftrightarrow> list_all completion_consistent (tasks d)"

subsection \<open>Promotion in the admin view\<close>

text \<open>
  \<^verbatim>\<open>promoteToAdmin\<close> sends \<^verbatim>\<open>upsert({ user_id: userId, role: "admin" })\<close> to
  \<^verbatim>\<open>user_roles\<close>; \<^verbatim>\<open>id\<close> and \<^verbatim>\<open>created_at\<close> take their defaults.
\<close>

definition promoteToAdmin ::
  "db \<Rightarrow> uuid option \<Rightarrow> uuid \<Rightarrow> timestamptz \<Rightarrow> uuid \<Rightarrow> error + db" where
  "promoteToAdmin d user userId db_now new_id =
     upsert_user_roles d user
       \<lparr>ur_id = new_id, ur_user_id = userId, ur_role = Admin, ur_created_at = db_now\<rparr>"

subsection \<open>A sample state\<close>

text \<open>
  Three identities: \<open>u1\<close> and \<open>u2\<close> hold the role \<^verbatim>\<open>user\<close>, \<open>adm\<close> holds \<^verbatim>\<open>user\<close> and
  \<^verbatim>\<open>admin\<close>. \<open>u1\<close> owns a category, a task with a subtask and a reminder, two
  notifications (one about the task) and one day of analytics.
\<close>

definition ex_users :: "auth_user list" where
  "ex_users =
     [\<lparr>au_id = ''u1'', au_email = Some ''ann@example.org'', au_raw_user_meta_data = Map.empty\<rparr>,
      \<lparr>au_id = ''u2'', au_email = Some ''bob@example.org'', au_raw_user_meta_data = Map.empty\<rparr>,
      \<lparr>au_id = ''adm'', au_email = Some ''root@example.org'', au_raw_user_meta_data = Map.empty\<rparr>]"

definition ex_roles :: "user_role list" where
  "ex_roles =
     [\<lparr>ur_id = ''r1'', ur_user_id = ''u1'', ur_role = User, ur_created_at = 1\<rparr>,
      \<lparr>ur_id = ''r2'', ur_user_id = ''u2'', ur_role = User, ur_created_at = 2\<rparr>,
      \<lparr>ur_id = ''r3'', ur_user_id = ''adm'', ur_role = User, ur_created_at = 3\<rparr>,
      \<lparr>ur_id = ''r4'', ur_user_id = ''adm'', ur_role = Admin, ur_created_at = 4\<rparr>]"

definition ex_work :: category where
  "ex_work = \<lparr>c_id = ''c1'', c_user_id = ''u1'', c_name = ''Work'', c_color = ''#f9a8d4'',
     c_icon = Some ''folder'', c_created_at = 5, c_updated_at = 5\<rparr>"

definition ex_task :: task where
  "ex_task = \<lparr>t_id = ''t1'', t_user_id = ''u1'', t_category_id = Some ''c1'',
     t_title = ''Write report'', t_description = None, t_status = Pending,
     t_priority = Medium, t_due_date = None, t_completed_at = None, t_tags = Some [],
     t_is_starred = Some False, t_sort_order = Some 0, t_created_at = 6, t_updated_at = 6\<rparr>"

definition ex_subtask :: subtask where
  "ex_subtask = \<lparr>st_id = ''s1'', st_task_id = ''t1'', st_user_id = ''u1'', st_title = ''Outline'',
     st_is_completed = Some False, st_sort_order = Some 0, st_created_at = 7, st_updated_at = 7\<rparr>"

definition ex_reminder :: reminder where
  "ex_reminder = \<lparr>rm_id = ''m1'', rm_task_id = ''t1'', rm_user_id = ''u1'', rm_remind_at = 50,
     rm_is_sent = Some False, rm_message = None, rm_created_at = 8\<rparr>"

definition ex_note_task :: notification where
  "ex_note_task = \<lparr>n_id = ''n1'', n_user_id = ''u1'', n_title = ''Due soon'', n_body = None,
     n_type = Some ''reminder'', n_is_read = Some False, n_task_id = Some ''t1'', n_created_at = 9\<rparr>"

definition ex_note_plain :: notification where
  "ex_note_plain = \<lparr>n_id = ''n2'', n_user_id = ''u1'', n_title = ''Welcome'', n_body = None,
     n_type = Some ''info'', n_is_read = Some True, n_task_id = None, n_created_at = 9\<rparr>"

definition ex_day :: analytics_day where
  "ex_day = \<lparr>a_id = ''a1'', a_user_id = ''u1'', a_date = 20000, a_tasks_created = Some 1,
     a_tasks_completed = Some 0, a_tasks_cancelled = Some 0, a_focus_minutes = Some 0,
     a_streak_days = Some 0, a_created_at = 10\<rparr>"

definition ex_db :: db where
  "ex_db = \<lparr>auth_users = ex_users,
     profiles =
       [\<lparr>p_id = ''u1'', p_display_name = Some ''ann'', p_avatar_url = None, p_bio = None,
          p_created_at = 1, p_updated_at = 1\<rparr>,
        \<lparr>p_id = ''u2'', p_display_name = Some ''bob'', p_avatar_url = None, p_bio = None,
          p_created_at = 2, p_updated_at = 2\<rparr>,
        \<lparr>p_id = ''adm'', p_display_name = Some ''root'', p_avatar_url = None, p_bio = None,
          p_created_at = 3, p_updated_at = 3\<rparr>],
     user_roles = ex_roles, categories = [ex_work], tasks = [ex_task],
     subtasks = [ex_subtask], reminders = [ex_reminder],
     notifications = [ex_note_task, ex_note_plain], analytics = [ex_day]\<rparr>"

text \<open>\<^verbatim>\<open>WHERE user_id = u\<close> on \<^verbatim>\<open>user_roles\<close>, and \<^verbatim>\<open>SET role = r\<close>.\<close>

definition roles_of_user :: "uuid \<Rightarrow> user_role \<Rightarrow> bool" where
  "roles_of_user u r \<longleftrightarrow> ur_user_id r = u"

definition set_role :: "app_role \<Rightarrow> user_role \<Rightarrow> user_role" where
  "set_role x r = r\<lparr>ur_role := x\<rparr>"

text \<open>A query without a filter of its own.\<close>

definition any_row :: "row \<Rightarrow> bool" where
  "any_row r \<longleftrightarrow> True"

text \<open>A fourth identity, signing up with a full name and no display name.\<close>

definition ex_new_user :: auth_user where
  "ex_new_user = \<lparr>au_id = ''u3'', au_email = Some ''cy@example.org'',
     au_raw_user_meta_data = [''full_name'' \<mapsto> ''Cy Young'']\<rparr>"

text \<open>A second row for the day and owner of \<open>ex_day\<close>, under a new \<^verbatim>\<open>id\<close>.\<close>

definition ex_day_again :: analytics_day where
  "ex_day_again = \<lparr>a_id = ''a2'', a_user_id = ''u1'', a_date = 20000, a_tasks_created = Some 0,
     a_tasks_completed = Some 0, a_tasks_cancelled = Some 0, a_focus_minutes = Some 25,
     a_streak_days = Some 0, a_created_at = 30\<rparr>"

text \<open>\<^verbatim>\<open>WHERE id = x\<close> on \<^verbatim>\<open>tasks\<close>, and \<^verbatim>\<open>SET title = s\<close>.\<close>

definition task_with_id :: "uuid \<Rightarrow> task \<Rightarrow> bool" where
  "task_with_id x r \<longleftrightarrow> t_id r = x"

definition set_title :: "string \<Rightarrow> task \<Rightarrow> task" where
  "set_title s r = r\<lparr>t_title := s\<rparr>"

text \<open>
  A task that its owner inserts with an \<^verbatim>\<open>updated_at\<close> of its own choice, later than the
  clock of the transactions that follow; and the state once it is stored.
\<close>

definition ex_future_task :: task where
  "ex_future_task = \<lparr>t_id = ''t2'', t_user_id = ''u1'', t_category_id = None,
     t_title = ''Plan'', t_description = None, t_status = Pending,
     t_priority = Low, t_due_date = None, t_completed_at = None, t_tags = Some [],
     t_is_starred = Some False, t_sort_order = Some 0, t_created_at = 10, t_updated_at = 100\<rparr>"

definition ex_db_future :: db where
  "ex_db_future = ex_db\<lparr>tasks := [ex_task, ex_future_task]\<rparr>"

text \<open>\<^verbatim>\<open>WHERE id = x\<close> and a \<^verbatim>\<open>SET\<close> list for the three other tables with the trigger.\<close>

definition profile_with_id :: "uuid \<Rightarrow> profile \<Rightarrow> bool" where
  "profile_with_id x r \<longleftrightarrow> p_id r = x"

definition set_bio :: "string \<Rightarrow> profile \<Rightarrow> profile" where
  "set_bio s r = r\<lparr>p_bio := Some s\<rparr>"

definition category_with_id :: "uuid \<Rightarrow> category \<Rightarrow> bool" where
  "category_with_id x r \<longleftrightarrow> c_id r = x"

definition set_color :: "string \<Rightarrow> category \<Rightarrow> category" where
  "set_color s r = r\<lparr>c_color := s\<rparr>"

definition subtask_with_id :: "uuid \<Rightarrow> subtask \<Rightarrow> bool" where
  "subtask_with_id x r \<longleftrightarrow> st_id r = x"

definition set_is_completed :: "bool \<Rightarrow> subtask \<Rightarrow> subtask" where
  "set_is_completed b r = r\<lparr>st_is_completed := Some b\<rparr>"

text \<open>
  The dialog filled in for a new pending task, the row \<^verbatim>\<open>saveTask\<close> sends for it when the
  client's clock is \<open>40\<close> and the store's \<open>41\<close>, and two writes of \<open>u1\<close>: the creation,
  then \<^verbatim>\<open>toggleStatus\<close> on the created task at client time \<open>50\<close>, store time \<open>51\<close>.
\<close>

definition ex_form :: task_form where
  "ex_form = \<lparr>f_title = '' Buy milk '', f_description = [], f_status = Pending,
     f_priority = Medium, f_due_date = [], f_category_id = [], f_tags = ''home, shop'',
     f_is_starred = False\<rparr>"

definition ex_created_task :: task where
  "ex_created_task = payload_row (saveTask_payload ex_form 40) ''u1'' ''t3'' 41"

definition ex_writes :: "app_write list" where
  "ex_writes = [SaveTask (Some ''u1'') ex_form None 40 41 ''t3'',
                ToggleStatus (Some ''u1'') ex_created_task 50 51]"

text \<open>The sample state once \<open>adm\<close> has promoted \<open>u2\<close>.\<close>

definition ex_db_promoted :: db where
  "ex_db_promoted = ex_db\<lparr>user_roles := ex_roles @
     [\<lparr>ur_id = ''r5'', ur_user_id = ''u2'', ur_role = Admin, ur_created_at = 60\<rparr>]\<rparr>"

section \<open>Properties\<close>

subsection \<open>What the policies of each table amount to\<close>

lemma using_ok_Profiles:
  "using_ok d uid c Profiles owner \<longleftrightarrow> c = Insert \<or> (c = Select \<or> c = Update) \<and> uid = Some owner"
  by (cases c; simp add: using_ok_def policies_def)

lemma using_ok_UserRoles:
  "using_ok d uid c UserRoles owner \<longleftrightarrow>
     c = Select \<and> uid = Some owner \<or> eval_policy_expr d uid owner (Has_role_uid Admin)"
  by (simp add: using_ok_def policies_def)

lemma using_ok_Categories:
  "using_ok d uid c Categories owner \<longleftrightarrow>
     uid = Some owner \<or> c = Select \<and> eval_policy_expr d uid owner (Has_role_uid Admin)"
  by (simp add: using_ok_def policies_def)

lemma using_ok_Tasks:
  "using_ok d uid c Tasks owner \<longleftrightarrow>
     uid = Some owner \<or> c = Select \<and> eval_policy_expr d uid owner (Has_role_uid Admin)"
  by (simp add: using_ok_def policies_def)

lemma using_ok_Subtasks: "using_ok d uid c Subtasks owner \<longleftrightarrow> uid = Some owner"
  by (simp add: using_ok_def policies_def)

lemma using_ok_Reminders: "using_ok d uid c Reminders owner \<longleftrightarrow> uid = Some owner"
  by (simp add: using_ok_def policies_def)

lemma using_ok_Notifications:
  "using_ok d uid c Notifications owner \<longleftrightarrow> c = Insert \<or> uid = Some owner"
  by (cases c; simp add: using_ok_def policies_def)

lemma using_ok_Analytics:
  "using_ok d uid c Analytics owner \<longleftrightarrow>
     uid = Some owner \<or> c = Select \<and> eval_policy_expr d uid owner (Has_role_uid Admin)"
  by (simp add: using_ok_def policies_def)

lemmas using_ok_simps = using_ok_Profiles using_ok_UserRoles using_ok_Categories using_ok_Tasks
  using_ok_Subtasks using_ok_Reminders using_ok_Notifications using_ok_Analytics

lemma check_ok_Profiles: "check_ok d uid c Profiles owner \<longleftrightarrow> c \<noteq> Delete \<and> uid = Some owner"
  by (cases c; simp add: check_ok_def policies_def)

lemma check_ok_UserRoles:
  "check_ok d uid c UserRoles owner \<longleftrightarrow>
     c = Select \<and> uid = Some owner \<or> eval_policy_expr d uid owner (Has_role_uid Admin)"
  by (simp add: check_ok_def policies_def)

lemma check_ok_Categories:
  "check_ok d uid c Categories owner \<longleftrightarrow>
     uid = Some owner \<or> c = Select \<and> eval_policy_expr d uid owner (Has_role_uid Admin)"
  by (simp add: check_ok_def policies_def)

lemma check_ok_Tasks:
  "check_ok d uid c Tasks owner \<longleftrightarrow>
     uid = Some owner \<or> c = Select \<and> eval_policy_expr d uid owner (Has_role_uid Admin)"
  by (simp add: check_ok_def policies_def)

lemma check_ok_Subtasks: "check_ok d uid c Subtasks owner \<longleftrightarrow> uid = Some owner"
  by (simp add: check_ok_def policies_def)

lemma check_ok_Reminders: "check_ok d uid c Reminders owner \<longleftrightarrow> uid = Some owner"
  by (simp add: check_ok_def policies_def)

lemma check_ok_Notifications: "check_ok d uid c Notifications owner \<longleftrightarrow> uid = Some owner"
  by (cases c; simp add: check_ok_def policies_def)

lemma check_ok_Analytics:
  "check_ok d uid c Analytics owner \<longleftrightarrow>
     uid = Some owner \<or> c = Select \<and> eval_policy_expr d uid owner (Has_role_uid Admin)"
  by (simp add: check_ok_def policies_def)

lemmas check_ok_simps = check_ok_Profiles check_ok_UserRoles check_ok_Categories check_ok_Tasks
  check_ok_Subtasks check_ok_Reminders check_ok_Notifications check_ok_Analytics

lemma grants_admin_read_iff:
  "grants_admin_read T \<longleftrightarrow> T = UserRoles \<or> T = Categories \<or>  T = Tasks \<or> T = Analytics"
  by (cases T; simp add: grants_admin_read_def policies_def)

lemma has_role_iff:
  "has_role d u r \<longleftrightarrow> (\<exists>x \<in> set (user_roles d). ur_user_id x = u \<and> ur_role x = r)"
  by (simp add: has_role_def list_ex_iff)

text \<open>
  A row that passes the \<^verbatim>\<open>UPDATE\<close> or \<^verbatim>\<open>DELETE\<close> policies of its table passes the \<^verbatim>\<open>SELECT\<close>
  policies too, so the rows a write touches are always rows its requester can read.
\<close>

lemma write_visible_read_visible:
  "c = Update \<or> c = Delete \<Longrightarrow> using_ok d uid c T owner \<Longrightarrow> using_ok d uid Select T owner"
  by (cases T) (auto simp: using_ok_simps)

lemma eval_policy_expr_roles:
  assumes "user_roles d' = user_roles d"
  shows "eval_policy_expr d' = eval_policy_expr d"
proof (intro ext)
  fix uid owner e
  show "eval_policy_expr d' uid owner e = eval_policy_expr d uid owner e"
    using assms by (cases e; cases uid; simp add: has_role_def)
qed

lemma using_ok_roles:
  assumes "user_roles d' = user_roles d"
  shows "using_ok d' uid c T owner = using_ok d uid c T owner"
  unfolding using_ok_def eval_policy_expr_roles [OF assms] by (rule refl)

lemma check_ok_roles:
  assumes "user_roles d' = user_roles d"
  shows "check_ok d' uid c T owner = check_ok d uid c T owner"
  unfolding check_ok_def eval_policy_expr_roles [OF assms] by (rule refl)

lemma rls_update_untouched:
  "\<forall>r \<in> set rows. \<not> using_ok d uid Update T (owner r) \<Longrightarrow>
     rls_update d uid T owner wh upd rows = Inr rows"
  by (simp add: rls_update_def touched_def list_ex_iff map_idI)

lemma rls_delete_untouched:
  "\<forall>r \<in> set rows. \<not> using_ok d uid Delete T (owner r) \<Longrightarrow>
     rls_delete d uid T owner wh rows = rows"
  by (simp add: rls_delete_def touched_def)

lemma stored_commit_same: "stored d (commit d) = d"
  by (simp add: stored_def commit_def)

subsection \<open>Facts about the sample state\<close>

lemma ex_has_role:
  "has_role ex_db ''adm'' Admin" "\<not> has_role ex_db ''u1'' Admin" "\<not> has_role ex_db ''u2'' Admin"
  "has_role ex_db ''u1'' User" "has_role ex_db ''u2'' User"
  by (simp_all add: has_role_def ex_db_def ex_roles_def)

lemmas ex_defs = ex_db_def ex_users_def ex_roles_def ex_work_def ex_task_def ex_subtask_def
  ex_reminder_def ex_note_task_def ex_note_plain_def ex_day_def

lemmas constraint_defs = unique_ok_def fk_ok_def user_exists_def task_exists_def
  category_exists_def

lemma ex_constraints: "unique_ok ex_db" "fk_ok ex_db"
  by (simp_all add: constraint_defs ex_defs)

lemma ex_admin_policy [simp]:
  "using_ok ex_db (Some ''adm'') c UserRoles w" "check_ok ex_db (Some ''adm'') c UserRoles w"
  by (simp_all add: using_ok_UserRoles check_ok_UserRoles ex_has_role)

lemma ex_admin_delete:
  "delete_user_roles ex_db (Some ''adm'') (roles_of_user ''u2'') =
     Inr (ex_db\<lparr>user_roles := [ex_roles ! 0, ex_roles ! 2, ex_roles ! 3]\<rparr>)"
  by (simp add: delete_user_roles_def rls_delete_def touched_def roles_of_user_def)
     (simp add: ex_defs)

lemma ex_admin_update:
  "update_user_roles ex_db (Some ''adm'') (roles_of_user ''u2'') (set_role Admin) =
     Inr (ex_db\<lparr>user_roles := [ex_roles ! 0, (ex_roles ! 1)\<lparr>ur_role := Admin\<rparr>,
                                 ex_roles ! 2, ex_roles ! 3]\<rparr>)"
  apply (simp add: update_user_roles_def rls_update_def touched_def)
  apply (simp add: ex_defs commit_def constraint_defs roles_of_user_def set_role_def)
  done

subsection \<open>The role-check predicate\<close>

text \<open>
  Claim C3. For every identity \<open>u\<close> and role \<open>r\<close>, \<open>has_role d u r\<close> holds exactly when
  a \<^verbatim>\<open>user_roles\<close> row with that \<^verbatim>\<open>user_id\<close> and that \<^verbatim>\<open>role\<close> is stored. The function
  returns a boolean and no state, so it writes nothing; and it does not take the
  requester: a stored row counts also when the \<^verbatim>\<open>SELECT\<close> policies of \<^verbatim>\<open>user_roles\<close>
  would hide it from whoever asks.
\<close>

theorem has_role_exact:
  "(has_role d u r \<longleftrightarrow> (\<exists>x \<in> set (user_roles d). ur_user_id x = u \<and> ur_role x = r)) \<and>
   (\<forall>x \<in> set (user_roles d). \<forall>caller.
      \<not> using_ok d caller Select UserRoles (ur_user_id x) \<longrightarrow> has_role d (ur_user_id x) (ur_role x))"
  by (auto simp: has_role_iff)

theorem has_role_exact_witness:
  "ex_roles ! 3 \<in> set (user_roles ex_db) \<and>
   \<not> using_ok ex_db (Some ''u1'') Select UserRoles (ur_user_id (ex_roles ! 3)) \<and>
   has_role ex_db ''adm'' Admin \<and>
   (\<exists>x \<in> set (user_roles ex_db). ur_user_id x = ''adm'' \<and> ur_role x = Admin)"
proof -
  have row: "ex_roles ! 3 \<in> set (user_roles ex_db)" "ur_user_id (ex_roles ! 3) = ''adm''"
    "ur_role (ex_roles ! 3) = Admin"
    by (simp_all add: ex_db_def ex_roles_def)
  have hidden: "\<not> using_ok ex_db (Some ''u1'') Select UserRoles (ur_user_id (ex_roles ! 3))"
    by (simp add: row using_ok_UserRoles ex_has_role)
  from has_role_exact [of ex_db "''adm''" Admin] row hidden show ?thesis
    by (metis)
qed

subsection \<open>Rows of other identities\<close>

text \<open>
  Claim C1, as amended. Let \<open>I\<close> differ from the owner of a row. On every table but
  \<^verbatim>\<open>user_roles\<close>, \<open>I\<close>'s \<^verbatim>\<open>SELECT\<close> passes the policies exactly when \<open>I\<close> holds \<^verbatim>\<open>admin\<close>
  and the table grants admin read, and \<open>I\<close>'s \<^verbatim>\<open>UPDATE\<close> and \<^verbatim>\<open>DELETE\<close> of the row, and
  an \<^verbatim>\<open>INSERT\<close> or \<^verbatim>\<open>UPDATE\<close> by \<open>I\<close> that would store a row of that owner, never pass:
  the admin grant on those tables is read-only. On \<^verbatim>\<open>user_roles\<close> the admin policy is
  \<^verbatim>\<open>FOR ALL\<close>: every command on another identity's role row passes exactly when \<open>I\<close>
  holds \<^verbatim>\<open>admin\<close>.
\<close>

theorem foreign_rows_protected:
  "I \<noteq> owner \<Longrightarrow>
     (T \<noteq> UserRoles \<longrightarrow>
        (using_ok d (Some I) Select T owner \<longleftrightarrow> has_role d I Admin \<and> grants_admin_read T) \<and>
        \<not> using_ok d (Some I) Update T owner \<and>
        \<not> using_ok d (Some I) Delete T owner \<and>
        \<not> check_ok d (Some I) Insert T owner \<and>
        \<not> check_ok d (Some I) Update T owner) \<and>
     (using_ok d (Some I) Select UserRoles owner \<longleftrightarrow> has_role d I Admin) \<and>
     (using_ok d (Some I) Update UserRoles owner \<longleftrightarrow> has_role d I Admin) \<and>
     (using_ok d (Some I) Delete UserRoles owner \<longleftrightarrow> has_role d I Admin) \<and>
     (check_ok d (Some I) Insert UserRoles owner \<longleftrightarrow> has_role d I Admin) \<and>
     (check_ok d (Some I) Update UserRoles owner \<longleftrightarrow> has_role d I Admin)"
  by (cases T; simp add: using_ok_simps check_ok_simps grants_admin_read_iff)

theorem foreign_rows_protected_witness:
  "''u2'' \<noteq> ''u1'' \<and> ''adm'' \<noteq> ''u1'' \<and> Tasks \<noteq> UserRoles \<and>
   \<not> using_ok ex_db (Some ''u2'') Select Tasks ''u1'' \<and>
   \<not> using_ok ex_db (Some ''u2'') Update Tasks ''u1'' \<and>
   \<not> using_ok ex_db (Some ''u2'') Delete Tasks ''u1'' \<and>
   \<not> check_ok ex_db (Some ''u2'') Insert Tasks ''u1'' \<and>
   \<not> check_ok ex_db (Some ''u2'') Update Tasks ''u1'' \<and>
   using_ok ex_db (Some ''adm'') Select Tasks ''u1'' \<and>
   \<not> using_ok ex_db (Some ''adm'') Update Tasks ''u1'' \<and>
   \<not> using_ok ex_db (Some ''adm'') Delete Tasks ''u1'' \<and>
   \<not> check_ok ex_db (Some ''adm'') Insert Tasks ''u1'' \<and>
   \<not> using_ok ex_db (Some ''adm'') Select Subtasks ''u1''"
  using foreign_rows_protected [of "''u2''" "''u1''" Tasks ex_db]
    foreign_rows_protected [of "''adm''" "''u1''" Tasks ex_db]
    foreign_rows_protected [of "''adm''" "''u1''" Subtasks ex_db]
  by (simp add: ex_has_role grants_admin_read_iff)

text \<open>
  The claim as first stated also covers \<^verbatim>\<open>user_roles\<close>, whose rows carry a \<^verbatim>\<open>user_id\<close>
  and whose policy \<^verbatim>\<open>Admins can manage all roles\<close> it cites. There it fails: in the
  sample state the admin \<open>adm\<close> passes \<^verbatim>\<open>UPDATE\<close>, \<^verbatim>\<open>DELETE\<close> and \<^verbatim>\<open>INSERT\<close> on the role
  rows of \<open>u2\<close>, deletes them, and makes \<open>u2\<close> an admin.
\<close>

theorem admin_manages_roles_counterexample:
  "''adm'' \<noteq> ''u2'' \<and> has_role ex_db ''adm'' Admin \<and> grants_admin_read UserRoles \<and>
   using_ok ex_db (Some ''adm'') Update UserRoles ''u2'' \<and>
   using_ok ex_db (Some ''adm'') Delete UserRoles ''u2'' \<and>
   check_ok ex_db (Some ''adm'') Insert UserRoles ''u2'' \<and>
   map ur_id (user_roles (stored ex_db
      (delete_user_roles ex_db (Some ''adm'') (roles_of_user ''u2'')))) = [''r1'', ''r3'', ''r4''] \<and>
   map ur_role (user_roles (stored ex_db
      (update_user_roles ex_db (Some ''adm'') (roles_of_user ''u2'') (set_role Admin))))
     = [User, Admin, User, Admin]"
  by (simp add: ex_has_role grants_admin_read_iff ex_admin_delete ex_admin_update stored_def)
     (simp add: ex_roles_def)

subsection \<open>Who may write \<^verbatim>\<open>user_roles\<close>\<close>

text \<open>
  Claim C10. For a requester \<open>I\<close> that does not hold \<^verbatim>\<open>admin\<close>, no \<^verbatim>\<open>INSERT\<close>,
  \<^verbatim>\<open>UPDATE\<close> or \<^verbatim>\<open>DELETE\<close> on \<^verbatim>\<open>user_roles\<close> passes the policies, whatever row it is
  about; the one thing the policies let \<open>I\<close> do is \<^verbatim>\<open>SELECT\<close> rows whose \<^verbatim>\<open>user_id\<close> is
  \<open>I\<close>. So an insert or upsert by \<open>I\<close> fails with a policy violation, and an update or
  delete by \<open>I\<close> touches no row: the table, and with it every role of every identity,
  stays as it was.
\<close>

theorem non_admin_cannot_write_roles:
  assumes "\<not> has_role d I Admin"
  shows "\<not> check_ok d (Some I) Insert UserRoles owner \<and>
         \<not> using_ok d (Some I) Update UserRoles owner \<and>
         \<not> check_ok d (Some I) Update UserRoles owner \<and>
         \<not> using_ok d (Some I) Delete UserRoles owner \<and>
         (using_ok d (Some I) Select UserRoles owner \<longleftrightarrow> owner = I) \<and>
         insert_user_roles d (Some I) row = Inl RlsViolation \<and>
         upsert_user_roles d (Some I) row = Inl RlsViolation \<and>
         stored d (update_user_roles d (Some I) wh assign) = d \<and>
         delete_user_roles d (Some I) wh = Inr d"
proof -
  have pol: "\<And>c w. c \<noteq> Select \<Longrightarrow> \<not> using_ok d (Some I) c UserRoles w"
            "\<And>c w. c \<noteq> Select \<Longrightarrow> \<not> check_ok d (Some I) c UserRoles w"
    using assms by (simp_all add: using_ok_UserRoles check_ok_UserRoles)
  have sel: "using_ok d (Some I) Select UserRoles owner \<longleftrightarrow> owner = I"
    using assms by (auto simp: using_ok_UserRoles)
  have ins: "insert_user_roles d (Some I) row = Inl RlsViolation"
    by (simp add: insert_user_roles_def pol)
  have ups: "upsert_user_roles d (Some I) row = Inl RlsViolation"
    by (simp add: upsert_user_roles_def pol)
  have "rls_update d (Some I) UserRoles ur_user_id wh assign (user_roles d) = Inr (user_roles d)"
    by (rule rls_update_untouched) (simp add: pol)
  then have upd: "stored d (update_user_roles d (Some I) wh assign) = d"
    by (simp add: update_user_roles_def stored_commit_same)
  have "rls_delete d (Some I) UserRoles ur_user_id wh (user_roles d) = user_roles d"
    by (rule rls_delete_untouched) (simp add: pol)
  then have del: "delete_user_roles d (Some I) wh = Inr d"
    by (simp add: delete_user_roles_def)
  from pol sel ins ups upd del show ?thesis by simp
qed

theorem non_admin_cannot_write_roles_witness:
  "\<not> has_role ex_db ''u2'' Admin \<and>
   insert_user_roles ex_db (Some ''u2'')
     \<lparr>ur_id = ''r9'', ur_user_id = ''u2'', ur_role = Admin, ur_created_at = 11\<rparr> = Inl RlsViolation \<and>
   upsert_user_roles ex_db (Some ''u2'')
     \<lparr>ur_id = ''r9'', ur_user_id = ''u2'', ur_role = Admin, ur_created_at = 11\<rparr> = Inl RlsViolation \<and>
   stored ex_db (update_user_roles ex_db (Some ''u2'') (roles_of_user ''u2'') (set_role Admin)) = ex_db \<and>
   delete_user_roles ex_db (Some ''u2'') (roles_of_user ''u1'') = Inr ex_db"
  using non_admin_cannot_write_roles [of ex_db "''u2''"] ex_has_role(3) by simp

subsection \<open>Reading rows one may not see\<close>

lemma filter_removeAll_hidden: "\<not> P x \<Longrightarrow> filter P (removeAll x xs) = filter P xs"
  by (induction xs) auto

lemma has_role_without_row: "has_role (without_row R d) u r \<Longrightarrow> has_role d u r"
  by (cases R) (auto simp: has_role_iff)

lemma using_ok_without_row:
  assumes "\<not> has_role d I Admin"
  shows "using_ok (without_row R d) (Some I) Select T w = using_ok d (Some I) Select T w"
proof -
  from assms have "\<not> has_role (without_row R d) I Admin"
    using has_role_without_row by blast
  with assms show ?thesis
    by (cases T) (simp_all add: using_ok_simps)
qed

lemma rows_of_without_row:
  "R \<in> set (rows_of d T) \<Longrightarrow> rows_of (without_row R d) T = removeAll R (rows_of d T)"
  by (cases T) (auto simp: map_removeAll_inj inj_on_def)

lemma non_admin_sees_own:
  "\<not> has_role d I Admin \<Longrightarrow> using_ok d (Some I) Select T w \<longleftrightarrow> w = I"
  by (cases T) (auto simp: using_ok_simps)

text \<open>
  Claim C8. Let \<open>I\<close> be a requester that does not hold \<^verbatim>\<open>admin\<close>. A \<^verbatim>\<open>SELECT\<close> by \<open>I\<close>
  always yields a result, never an error. If the \<^verbatim>\<open>SELECT\<close> policies exclude a stored row
  \<open>R\<close> for \<open>I\<close>, the result does not hold \<open>R\<close> and is the very result the same query has
  in the state where \<open>R\<close> is not stored. Every row \<open>I\<close> receives is \<open>I\<close>'s own. In
  particular a category of another identity is not among the rows \<open>I\<close> receives, and is
  among those its owner receives.
\<close>

theorem hidden_row_reads_as_absent:
  assumes "\<not> has_role d I Admin"
  shows "(R \<in> set (rows_of d T) \<and> \<not> using_ok d (Some I) Select T (owner_of R) \<longrightarrow>
            select_from d (Some I) T (\<lambda>r. r = R) = Inr [] \<and>
            select_from d (Some I) T wh = select_from (without_row R d) (Some I) T wh \<and>
            (\<exists>rs. select_from d (Some I) T wh = Inr rs \<and> R \<notin> set rs)) \<and>
         (\<exists>rs. select_from d (Some I) T wh = Inr rs \<and> (\<forall>r \<in> set rs. owner_of r = I)) \<and>
         (c \<in> set (categories d) \<and> c_user_id c \<noteq> I \<and> wh (CategoryRow c) \<longrightarrow>
            (\<exists>rs. select_from d (Some I) Categories wh = Inr rs \<and> CategoryRow c \<notin> set rs) \<and>
            (\<exists>rs. select_from d (Some (c_user_id c)) Categories wh = Inr rs \<and>
                   CategoryRow c \<in> set rs))"
proof (intro conjI impI)
  assume R: "R \<in> set (rows_of d T) \<and> \<not> using_ok d (Some I) Select T (owner_of R)"
  let ?P = "\<lambda>r. using_ok d (Some I) Select T (owner_of r) \<and> wh r"
  have "filter ?P (removeAll R (rows_of d T)) = filter ?P (rows_of d T)"
    using R by (intro filter_removeAll_hidden) simp
  then show "select_from d (Some I) T wh = select_from (without_row R d) (Some I) T wh"
    using R by (simp add: select_from_def rows_of_without_row using_ok_without_row [OF assms])
  show "\<exists>rs. select_from d (Some I) T wh = Inr rs \<and> R \<notin> set rs"
    using R by (simp add: select_from_def)
  show "select_from d (Some I) T (\<lambda>r. r = R) = Inr []"
    using R by (auto simp: select_from_def filter_empty_conv)
next
  show "\<exists>rs. select_from d (Some I) T wh = Inr rs \<and> (\<forall>r \<in> set rs. owner_of r = I)"
    by (simp add: select_from_def non_admin_sees_own [OF assms])
next
  assume c: "c \<in> set (categories d) \<and> c_user_id c \<noteq> I \<and> wh (CategoryRow c)"
  show "\<exists>rs. select_from d (Some I) Categories wh = Inr rs \<and> CategoryRow c \<notin> set rs"
    using c by (simp add: select_from_def non_admin_sees_own [OF assms])
  show "\<exists>rs. select_from d (Some (c_user_id c)) Categories wh = Inr rs \<and> CategoryRow c \<in> set rs"
    using c by (simp add: select_from_def using_ok_Categories)
qed

lemma ex_select_categories:
  "select_from ex_db (Some ''u2'') Categories any_row = Inr []"
  "select_from ex_db (Some ''u1'') Categories any_row = Inr [CategoryRow ex_work]"
  by (simp_all add: select_from_def using_ok_Categories ex_has_role any_row_def)
     (simp_all add: ex_db_def ex_work_def)

theorem hidden_row_reads_as_absent_witness:
  "\<not> has_role ex_db ''u2'' Admin \<and>
   CategoryRow ex_work \<in> set (rows_of ex_db Categories) \<and>
   \<not> using_ok ex_db (Some ''u2'') Select Categories (owner_of (CategoryRow ex_work)) \<and>
   select_from ex_db (Some ''u2'') Categories any_row
     = select_from (without_row (CategoryRow ex_work) ex_db) (Some ''u2'') Categories any_row \<and>
   ex_work \<in> set (categories ex_db) \<and> c_user_id ex_work \<noteq> ''u2'' \<and>
   any_row (CategoryRow ex_work) \<and>
   select_from ex_db (Some ''u2'') Categories (\<lambda>r. r = CategoryRow ex_work) = Inr [] \<and>
   select_from ex_db (Some ''u2'') Categories any_row = Inr [] \<and>
   select_from ex_db (Some ''u1'') Categories any_row = Inr [CategoryRow ex_work]"
proof -
  have h: "\<not> has_role ex_db ''u2'' Admin" by (rule ex_has_role)
  have r: "CategoryRow ex_work \<in> set (rows_of ex_db Categories)"
    by (simp add: ex_db_def)
  have u: "\<not> using_ok ex_db (Some ''u2'') Select Categories (owner_of (CategoryRow ex_work))"
    by (simp add: using_ok_Categories ex_has_role ex_work_def)
  have c: "ex_work \<in> set (categories ex_db)" "c_user_id ex_work \<noteq> ''u2''"
    "any_row (CategoryRow ex_work)"
    by (simp_all add: ex_db_def ex_work_def any_row_def)
  from hidden_row_reads_as_absent [OF h, of "CategoryRow ex_work" Categories any_row] r u
  have "select_from ex_db (Some ''u2'') Categories any_row
     = select_from (without_row (CategoryRow ex_work) ex_db) (Some ''u2'') Categories any_row"
    "select_from ex_db (Some ''u2'') Categories (\<lambda>r. r = CategoryRow ex_work) = Inr []"
    by blast+
  with h r u c ex_select_categories show ?thesis by simp
qed

subsection \<open>The new-identity trigger\<close>

lemma commit_ok: "unique_ok d \<Longrightarrow> fk_ok d \<Longrightarrow> commit d = Inr d"
  by (simp add: commit_def)

lemma commit_Inr: "commit d = Inr d' \<Longrightarrow> d' = d \<and> unique_ok d \<and> fk_ok d"
  by (simp add: commit_def split: if_splits)

lemma fk_fresh_profile:
  "fk_ok d \<Longrightarrow> \<not> user_exists d u \<Longrightarrow> u \<notin> p_id ` set (profiles d)"
  by (auto simp: fk_ok_def list_all_iff)

lemma fk_fresh_roles:
  "fk_ok d \<Longrightarrow> \<not> user_exists d u \<Longrightarrow> \<forall>r \<in> set (user_roles d). ur_user_id r \<noteq> u"
  by (auto simp: fk_ok_def list_all_iff)

lemma add_user_ok:
  assumes "unique_ok d" "fk_ok d" "\<not> user_exists d (au_id NEW)"
  shows "unique_ok (d\<lparr>auth_users := auth_users d @ [NEW]\<rparr>)"
    and "fk_ok (d\<lparr>auth_users := auth_users d @ [NEW]\<rparr>)"
  using assms
  by (simp_all add: unique_ok_def fk_ok_def user_exists_def task_exists_def category_exists_def
        list_all_iff split: option.splits)

lemma add_profile_ok:
  assumes "unique_ok d" "fk_ok d" "user_exists d (p_id p)" "p_id p \<notin> p_id ` set (profiles d)"
  shows "unique_ok (d\<lparr>profiles := profiles d @ [p]\<rparr>)"
    and "fk_ok (d\<lparr>profiles := profiles d @ [p]\<rparr>)"
  using assms
  by (simp_all add: unique_ok_def fk_ok_def user_exists_def task_exists_def category_exists_def
        list_all_iff split: option.splits)

lemma add_role_ok:
  assumes "unique_ok d" "fk_ok d" "user_exists d (ur_user_id r)"
    "ur_id r \<notin> ur_id ` set (user_roles d)"
    "\<forall>e \<in> set (user_roles d). \<not> (ur_user_id e = ur_user_id r \<and> ur_role e = ur_role r)"
  shows "unique_ok (d\<lparr>user_roles := user_roles d @ [r]\<rparr>)"
    and "fk_ok (d\<lparr>user_roles := user_roles d @ [r]\<rparr>)"
  using assms
  by (auto simp: unique_ok_def fk_ok_def user_exists_def task_exists_def category_exists_def
        list_all_iff split: option.splits)


text \<open>
  Claim C2. Let the state satisfy its declared constraints, let the identity be new
  (no \<^verbatim>\<open>auth.users\<close> row has its \<^verbatim>\<open>id\<close>) and let \<^verbatim>\<open>gen_random_uuid()\<close> return an unused
  value. Then creating the identity succeeds, and the trigger appends exactly one
  \<^verbatim>\<open>profiles\<close> row and exactly one \<^verbatim>\<open>user_roles\<close> row. The profile has the identity's
  \<^verbatim>\<open>id\<close>; its \<^verbatim>\<open>display_name\<close> is the metadata's \<^verbatim>\<open>display_name\<close> when that is not null,
  else the metadata's \<^verbatim>\<open>full_name\<close> when that is not null, else the text of the e-mail
  address before its first \<^verbatim>\<open>@\<close>. The role row is (identity, \<^verbatim>\<open>user\<close>). They are the
  only profile and the only role row of the identity, and the six other tables are as
  they were.
\<close>

theorem create_identity_bootstrap:
  assumes "unique_ok d" and "fk_ok d"
    and "\<not> user_exists d (au_id NEW)"
    and "new_id \<notin> ur_id ` set (user_roles d)"
  shows "\<exists>d'. create_identity d NEW now new_id = Inr d' \<and>
           auth_users d' = auth_users d @ [NEW] \<and>
           profiles d' = profiles d @
             [\<lparr>p_id = au_id NEW,
               p_display_name =
                 (case au_raw_user_meta_data NEW ''display_name'' of
                    Some n \<Rightarrow> Some n
                  | None \<Rightarrow>
                     (case au_raw_user_meta_data NEW ''full_name'' of
                        Some n \<Rightarrow> Some n
                      | None \<Rightarrow>
                         (case au_email NEW of
                            None \<Rightarrow> None
                          | Some e \<Rightarrow> Some (takeWhile (\<lambda>c. c \<noteq> CHR ''@'') e)))),
               p_avatar_url = au_raw_user_meta_data NEW ''avatar_url'',
               p_bio = None, p_created_at = now, p_updated_at = now\<rparr>] \<and>
           user_roles d' = user_roles d @
             [\<lparr>ur_id = new_id, ur_user_id = au_id NEW, ur_role = User, ur_created_at = now\<rparr>] \<and>
           length (filter (\<lambda>p. p_id p = au_id NEW) (profiles d')) = 1 \<and>
           length (filter (\<lambda>r. ur_user_id r = au_id NEW) (user_roles d')) = 1 \<and>
           categories d' = categories d \<and> tasks d' = tasks d \<and> subtasks d' = subtasks d \<and>
           reminders d' = reminders d \<and> notifications d' = notifications d \<and>
           analytics d' = analytics d"
proof -
  let ?name = "coalesce [au_raw_user_meta_data NEW ''display_name'',
                         au_raw_user_meta_data NEW ''full_name'',
                         split_part_1 (au_email NEW) CHR ''@'']"
  let ?p = "\<lparr>p_id = au_id NEW, p_display_name = ?name,
             p_avatar_url = au_raw_user_meta_data NEW ''avatar_url'',
             p_bio = None, p_created_at = now, p_updated_at = now\<rparr>"
  let ?r = "\<lparr>ur_id = new_id, ur_user_id = au_id NEW, ur_role = User, ur_created_at = now\<rparr>"
  let ?d1 = "d\<lparr>auth_users := auth_users d @ [NEW]\<rparr>"
  let ?d2 = "d\<lparr>auth_users := auth_users d @ [NEW], profiles := profiles d @ [?p]\<rparr>"
  let ?d3 = "d\<lparr>auth_users := auth_users d @ [NEW], profiles := profiles d @ [?p],
               user_roles := user_roles d @ [?r]\<rparr>"
  have no_p: "au_id NEW \<notin> p_id ` set (profiles d)"
    using assms(2,3) by (rule fk_fresh_profile)
  have no_r: "\<forall>r \<in> set (user_roles d). ur_user_id r \<noteq> au_id NEW"
    using assms(2,3) by (rule fk_fresh_roles)
  have ok1: "unique_ok ?d1" "fk_ok ?d1"
    using assms(1-3) by (rule add_user_ok)+
  have ex1: "user_exists ?d1 (au_id NEW)"
    by (simp add: user_exists_def)
  have pre2: "user_exists ?d1 (p_id ?p)" "p_id ?p \<notin> p_id ` set (profiles ?d1)"
    using ex1 no_p by simp_all
  have ok2: "unique_ok ?d2" "fk_ok ?d2"
    using add_profile_ok [OF ok1 pre2] by simp_all
  have ex2: "user_exists ?d2 (au_id NEW)"
    by (simp add: user_exists_def)
  have pre3: "user_exists ?d2 (ur_user_id ?r)" "ur_id ?r \<notin> ur_id ` set (user_roles ?d2)"
    "\<forall>e \<in> set (user_roles ?d2). \<not> (ur_user_id e = ur_user_id ?r \<and> ur_role e = ur_role ?r)"
    using ex2 assms(4) no_r by simp_all
  have ok3: "unique_ok ?d3" "fk_ok ?d3"
    using add_role_ok [OF ok2 pre3] by simp_all
  have run: "create_identity d NEW now new_id = Inr ?d3"
    by (simp add: create_identity_def handle_new_user_def commit_ok [OF ok1] commit_ok [OF ok2]
          commit_ok [OF ok3])
  have name: "?name =
      (case au_raw_user_meta_data NEW ''display_name'' of
         Some n \<Rightarrow> Some n
       | None \<Rightarrow>
          (case au_raw_user_meta_data NEW ''full_name'' of
             Some n \<Rightarrow> Some n
           | None \<Rightarrow>
              (case au_email NEW of
                 None \<Rightarrow> None
               | Some e \<Rightarrow> Some (takeWhile (\<lambda>c. c \<noteq> CHR ''@'') e))))"
    by (simp add: split_part_1_def split: option.splits)
  have one_p: "filter (\<lambda>p. p_id p = au_id NEW) (profiles d) = []"
    using no_p by (force simp: filter_empty_conv)
  have one_r: "filter (\<lambda>r. ur_user_id r = au_id NEW) (user_roles d) = []"
    using no_r by (auto simp: filter_empty_conv)
  show ?thesis
    unfolding run using name one_p one_r by simp
qed


lemma ex_new_user_fresh:
  "\<not> user_exists ex_db (au_id ex_new_user)" "''r5'' \<notin> ur_id ` set (user_roles ex_db)"
  by (simp_all add: user_exists_def ex_defs ex_new_user_def)

theorem create_identity_bootstrap_witness:
  "unique_ok ex_db \<and> fk_ok ex_db \<and> \<not> user_exists ex_db (au_id ex_new_user) \<and>
   ''r5'' \<notin> ur_id ` set (user_roles ex_db) \<and>
   (\<exists>d'. create_identity ex_db ex_new_user 20 ''r5'' = Inr d' \<and>
      profiles d' = profiles ex_db @
        [\<lparr>p_id = ''u3'', p_display_name = Some ''Cy Young'', p_avatar_url = None, p_bio = None,
          p_created_at = 20, p_updated_at = 20\<rparr>] \<and>
      user_roles d' = user_roles ex_db @
        [\<lparr>ur_id = ''r5'', ur_user_id = ''u3'', ur_role = User, ur_created_at = 20\<rparr>] \<and>
      tasks d' = tasks ex_db)"
  using create_identity_bootstrap [OF ex_constraints ex_new_user_fresh, of 20]
    ex_constraints ex_new_user_fresh
  by (auto simp: ex_new_user_def)

subsection \<open>One analytics row per owner and day\<close>

lemma pair_taken_not_unique:
  assumes "e \<in> set (analytics d)" and "a_user_id e = a_user_id row" and "a_date e = a_date row"
  shows "\<not> unique_ok (d\<lparr>analytics := analytics d @ [row]\<rparr>)"
proof -
  have "(a_user_id row, a_date row) \<in> (\<lambda>r. (a_user_id r, a_date r)) ` set (analytics d)"
    by (rule image_eqI [where x = e]) (simp_all add: assms)
  then show ?thesis
    by (simp add: unique_ok_def)
qed

text \<open>
  Claim C7. Once a row of \<^verbatim>\<open>analytics\<close> with a given owner and date is stored, inserting
  another row with that owner and date fails, whatever its other columns are: for the
  owner as requester the error is the uniqueness violation, for any requester the
  insert fails, and the stored rows stay as they were.
\<close>

theorem analytics_pair_unique:
  assumes "e \<in> set (analytics d)" and "a_user_id e = a_user_id row" and "a_date e = a_date row"
  shows "insert_analytics d (Some (a_user_id row)) row = Inl UniqueViolation \<and>
         (\<exists>err. insert_analytics d uid row = Inl err) \<and>
         stored d (insert_analytics d uid row) = d"
proof -
  note dup = pair_taken_not_unique [OF assms]
  have owner: "insert_analytics d (Some (a_user_id row)) row = Inl UniqueViolation"
    using dup by (simp add: insert_analytics_def check_ok_Analytics commit_def)
  have any: "\<exists>err. insert_analytics d uid row = Inl err"
    using dup by (simp add: insert_analytics_def commit_def)
  then have "stored d (insert_analytics d uid row) = d"
    by (auto simp: stored_def)
  with owner any show ?thesis by simp
qed

theorem analytics_pair_unique_witness:
  "ex_day \<in> set (analytics ex_db) \<and> a_user_id ex_day = a_user_id ex_day_again \<and>
   a_date ex_day = a_date ex_day_again \<and> a_id ex_day \<noteq> a_id ex_day_again \<and>
   insert_analytics ex_db (Some ''u1'') ex_day_again = Inl UniqueViolation \<and>
   stored ex_db (insert_analytics ex_db (Some ''u1'') ex_day_again) = ex_db"
proof -
  have h: "ex_day \<in> set (analytics ex_db)" "a_user_id ex_day = a_user_id ex_day_again"
    "a_date ex_day = a_date ex_day_again" "a_id ex_day \<noteq> a_id ex_day_again"
    "a_user_id ex_day_again = ''u1''"
    by (simp_all add: ex_db_def ex_day_def ex_day_again_def)
  from analytics_pair_unique [OF h(1-3), of "Some ''u1''"] h show ?thesis
    by (simp add: stored_def)
qed

subsection \<open>Deleting a task\<close>

text \<open>
  Claim C6. When a \<^verbatim>\<open>DELETE\<close> on \<^verbatim>\<open>tasks\<close> removes a task (the task matches the
  statement and passes the requester's \<^verbatim>\<open>DELETE\<close> policies), then afterwards the task is
  gone, no subtask and no reminder refers to it, and the notifications are the same
  rows at the same places, except that each one that referred to the task has its
  \<^verbatim>\<open>task_id\<close> set to null and every other column as before.
\<close>

theorem delete_task_cascades:
  assumes "t \<in> set (tasks d)" and "touched d uid Delete Tasks t_user_id wh t"
  shows "\<exists>d'. delete_tasks d uid wh = Inr d' \<and>
           t \<notin> set (tasks d') \<and>
           (\<forall>s \<in> set (subtasks d'). st_task_id s \<noteq> t_id t) \<and>
           (\<forall>r \<in> set (reminders d'). rm_task_id r \<noteq> t_id t) \<and>
           length (notifications d') = length (notifications d) \<and>
           (\<forall>i < length (notifications d).
              n_task_id (notifications d ! i) = Some (t_id t) \<longrightarrow>
              notifications d' ! i = (notifications d ! i)\<lparr>n_task_id := None\<rparr>) \<and>
           (\<forall>n \<in> set (notifications d'). n_task_id n \<noteq> Some (t_id t))"
proof -
  let ?gone = "map t_id (filter (touched d uid Delete Tasks t_user_id wh) (tasks d))"
  have g: "t_id t \<in> set ?gone"
    using assms by auto
  show ?thesis
    using g assms(2)
    by (auto simp: delete_tasks_def Let_def rls_delete_def split: option.splits)
qed


lemma ex_owner_touches_task:
  "ex_task \<in> set (tasks ex_db)"
  "touched ex_db (Some ''u1'') Delete Tasks t_user_id (task_with_id ''t1'') ex_task"
proof -
  show "ex_task \<in> set (tasks ex_db)"
    by (simp add: ex_db_def)
  have "t_user_id ex_task = ''u1''" "t_id ex_task = ''t1''"
    by (simp_all add: ex_task_def)
  then show "touched ex_db (Some ''u1'') Delete Tasks t_user_id (task_with_id ''t1'') ex_task"
    by (simp add: touched_def using_ok_Tasks task_with_id_def)
qed

lemma ex_delete_task:
  "delete_tasks ex_db (Some ''u1'') (task_with_id ''t1'') =
     Inr (ex_db\<lparr>tasks := [], subtasks := [], reminders := [],
                 notifications := [ex_note_task\<lparr>n_task_id := None\<rparr>, ex_note_plain]\<rparr>)"
proof -
  have "filter (touched ex_db (Some ''u1'') Delete Tasks t_user_id (task_with_id ''t1'')) (tasks ex_db)
          = [ex_task]"
    using ex_owner_touches_task(2) by (simp add: ex_db_def)
  moreover have "rls_delete ex_db (Some ''u1'') Tasks t_user_id (task_with_id ''t1'') (tasks ex_db) = []"
    using ex_owner_touches_task(2) by (simp add: rls_delete_def ex_db_def)
  moreover have "t_id ex_task = ''t1''" "st_task_id ex_subtask = ''t1''"
    "rm_task_id ex_reminder = ''t1''" "n_task_id ex_note_task = Some ''t1''"
    "n_task_id ex_note_plain = None"
    by (simp_all add: ex_task_def ex_subtask_def ex_reminder_def ex_note_task_def ex_note_plain_def)
  moreover have "subtasks ex_db = [ex_subtask]" "reminders ex_db = [ex_reminder]"
    "notifications ex_db = [ex_note_task, ex_note_plain]"
    by (simp_all add: ex_db_def)
  ultimately show ?thesis
    by (simp add: delete_tasks_def)
qed

theorem delete_task_cascades_witness:
  "ex_task \<in> set (tasks ex_db) \<and>
   touched ex_db (Some ''u1'') Delete Tasks t_user_id (task_with_id ''t1'') ex_task \<and>
   (\<exists>d'. delete_tasks ex_db (Some ''u1'') (task_with_id ''t1'') = Inr d' \<and>
      ex_task \<notin> set (tasks d') \<and> subtasks d' = [] \<and> reminders d' = [] \<and>
      notifications d' = [ex_note_task\<lparr>n_task_id := None\<rparr>, ex_note_plain])"
  using delete_task_cascades [OF ex_owner_touches_task] ex_owner_touches_task
  by (auto simp: ex_delete_task)

subsection \<open>The timestamp trigger on update\<close>

lemma rls_update_Inr:
  "rls_update d uid T owner wh upd rows = Inr rows' \<Longrightarrow>
     rows' = map (\<lambda>r. if touched d uid Update T owner wh r then upd r else r) rows"
  by (simp add: rls_update_def split: if_splits)

lemma update_profiles_Inr:
  "update_profiles d uid wh assign now = Inr d' \<Longrightarrow>
     profiles d' = map (\<lambda>r. if touched d uid Update Profiles p_id wh r
                             then (assign r)\<lparr>p_updated_at := now\<rparr> else r) (profiles d)"
  by (auto simp: update_profiles_def update_profiles_updated_at_def
        split: sum.splits dest!: rls_update_Inr commit_Inr)

lemma update_categories_Inr:
  "update_categories d uid wh assign now = Inr d' \<Longrightarrow>
     categories d' = map (\<lambda>r. if touched d uid Update Categories c_user_id wh r
                               then (assign r)\<lparr>c_updated_at := now\<rparr> else r) (categories d)"
  by (auto simp: update_categories_def update_categories_updated_at_def
        split: sum.splits dest!: rls_update_Inr commit_Inr)

lemma update_tasks_Inr:
  "update_tasks d uid wh assign now = Inr d' \<Longrightarrow>
     d' = d\<lparr>tasks := map (\<lambda>r. if touched d uid Update Tasks t_user_id wh r
                               then (assign r)\<lparr>t_updated_at := now\<rparr> else r) (tasks d)\<rparr>"
  by (auto simp: update_tasks_def update_tasks_updated_at_def
        split: sum.splits dest!: rls_update_Inr commit_Inr)

lemma update_subtasks_Inr:
  "update_subtasks d uid wh assign now = Inr d' \<Longrightarrow>
     subtasks d' = map (\<lambda>r. if touched d uid Update Subtasks st_user_id wh r
                             then (assign r)\<lparr>st_updated_at := now\<rparr> else r) (subtasks d)"
  by (auto simp: update_subtasks_def update_subtasks_updated_at_def
        split: sum.splits dest!: rls_update_Inr commit_Inr)

text \<open>
  Claim C4, as amended. For \<^verbatim>\<open>profiles\<close>, \<^verbatim>\<open>categories\<close>, \<^verbatim>\<open>tasks\<close> and \<^verbatim>\<open>subtasks\<close>: after
  an \<^verbatim>\<open>UPDATE\<close> that succeeds, the table has its rows at the same places, and every row
  the statement touched has \<^verbatim>\<open>updated_at\<close> equal to the time of the update, whatever the
  \<^verbatim>\<open>SET\<close> list assigned (to \<^verbatim>\<open>updated_at\<close> or to anything else). For a task whose stored
  \<^verbatim>\<open>updated_at\<close> is not later than the time of the update, the new \<^verbatim>\<open>updated_at\<close> is at
  least the old one.
\<close>

theorem update_overwrites_updated_at:
  "(\<forall>d'. update_profiles d uid whp ap now = Inr d' \<longrightarrow>
      length (profiles d') = length (profiles d) \<and>
      (\<forall>i < length (profiles d). touched d uid Update Profiles p_id whp (profiles d ! i) \<longrightarrow>
         p_updated_at (profiles d' ! i) = now)) \<and>
   (\<forall>d'. update_categories d uid whc ac now = Inr d' \<longrightarrow>
      length (categories d') = length (categories d) \<and>
      (\<forall>i < length (categories d). touched d uid Update Categories c_user_id whc (categories d ! i) \<longrightarrow>
         c_updated_at (categories d' ! i) = now)) \<and>
   (\<forall>d'. update_tasks d uid wht at now = Inr d' \<longrightarrow>
      length (tasks d') = length (tasks d) \<and>
      (\<forall>i < length (tasks d). touched d uid Update Tasks t_user_id wht (tasks d ! i) \<longrightarrow>
         t_updated_at (tasks d' ! i) = now \<and>
         (t_updated_at (tasks d ! i) \<le> now \<longrightarrow>
            t_updated_at (tasks d ! i) \<le> t_updated_at (tasks d' ! i)))) \<and>
   (\<forall>d'. update_subtasks d uid whs as now = Inr d' \<longrightarrow>
      length (subtasks d') = length (subtasks d) \<and>
      (\<forall>i < length (subtasks d). touched d uid Update Subtasks st_user_id whs (subtasks d ! i) \<longrightarrow>
         st_updated_at (subtasks d' ! i) = now))"
proof -
  have p: "\<forall>d'. update_profiles d uid whp ap now = Inr d' \<longrightarrow>
      length (profiles d') = length (profiles d) \<and>
      (\<forall>i < length (profiles d). touched d uid Update Profiles p_id whp (profiles d ! i) \<longrightarrow>
         p_updated_at (profiles d' ! i) = now)"
  proof (intro allI impI)
    fix d' assume "update_profiles d uid whp ap now = Inr d'"
    from update_profiles_Inr [OF this]
    show "length (profiles d') = length (profiles d) \<and>
      (\<forall>i < length (profiles d). touched d uid Update Profiles p_id whp (profiles d ! i) \<longrightarrow>
         p_updated_at (profiles d' ! i) = now)"
      by simp
  qed
  have c: "\<forall>d'. update_categories d uid whc ac now = Inr d' \<longrightarrow>
      length (categories d') = length (categories d) \<and>
      (\<forall>i < length (categories d). touched d uid Update Categories c_user_id whc (categories d ! i) \<longrightarrow>
         c_updated_at (categories d' ! i) = now)"
  proof (intro allI impI)
    fix d' assume "update_categories d uid whc ac now = Inr d'"
    from update_categories_Inr [OF this]
    show "length (categories d') = length (categories d) \<and>
      (\<forall>i < length (categories d). touched d uid Update Categories c_user_id whc (categories d ! i) \<longrightarrow>
         c_updated_at (categories d' ! i) = now)"
      by simp
  qed
  have t: "\<forall>d'. update_tasks d uid wht at now = Inr d' \<longrightarrow>
      length (tasks d') = length (tasks d) \<and>
      (\<forall>i < length (tasks d). touched d uid Update Tasks t_user_id wht (tasks d ! i) \<longrightarrow>
         t_updated_at (tasks d' ! i) = now \<and>
         (t_updated_at (tasks d ! i) \<le> now \<longrightarrow>
            t_updated_at (tasks d ! i) \<le> t_updated_at (tasks d' ! i)))"
  proof (intro allI impI)
    fix d' assume "update_tasks d uid wht at now = Inr d'"
    from update_tasks_Inr [OF this]
    have "tasks d' = map (\<lambda>r. if touched d uid Update Tasks t_user_id wht r
                               then (at r)\<lparr>t_updated_at := now\<rparr> else r) (tasks d)"
      by simp
    then show "length (tasks d') = length (tasks d) \<and>
      (\<forall>i < length (tasks d). touched d uid Update Tasks t_user_id wht (tasks d ! i) \<longrightarrow>
         t_updated_at (tasks d' ! i) = now \<and>
         (t_updated_at (tasks d ! i) \<le> now \<longrightarrow>
            t_updated_at (tasks d ! i) \<le> t_updated_at (tasks d' ! i)))"
      by simp
  qed
  have s: "\<forall>d'. update_subtasks d uid whs as now = Inr d' \<longrightarrow>
      length (subtasks d') = length (subtasks d) \<and>
      (\<forall>i < length (subtasks d). touched d uid Update Subtasks st_user_id whs (subtasks d ! i) \<longrightarrow>
         st_updated_at (subtasks d' ! i) = now)"
  proof (intro allI impI)
    fix d' assume "update_subtasks d uid whs as now = Inr d'"
    from update_subtasks_Inr [OF this]
    show "length (subtasks d') = length (subtasks d) \<and>
      (\<forall>i < length (subtasks d). touched d uid Update Subtasks st_user_id whs (subtasks d ! i) \<longrightarrow>
         st_updated_at (subtasks d' ! i) = now)"
      by simp
  qed
  from p c t s show ?thesis by (intro conjI)
qed


lemma ex_db_future_constraints: "unique_ok ex_db_future" "fk_ok ex_db_future"
  by (simp_all add: constraint_defs ex_db_future_def ex_defs ex_future_task_def)

lemma ex_insert_future: "insert_tasks ex_db (Some ''u1'') ex_future_task = Inr ex_db_future"
proof -
  have "t_user_id ex_future_task = ''u1''"
    by (simp add: ex_future_task_def)
  moreover have "ex_db\<lparr>tasks := tasks ex_db @ [ex_future_task]\<rparr> = ex_db_future"
    by (simp add: ex_db_future_def ex_db_def)
  ultimately show ?thesis
    by (simp add: insert_tasks_def check_ok_Tasks commit_ok ex_db_future_constraints)
qed

lemma ex_update_future:
  "update_tasks ex_db_future (Some ''u1'') (task_with_id ''t2'') (set_title ''Plan B'') 20 =
     Inr (ex_db_future\<lparr>tasks := [ex_task, ex_future_task\<lparr>t_title := ''Plan B'', t_updated_at := 20\<rparr>]\<rparr>)"
proof -
  let ?d' = "ex_db_future\<lparr>tasks := [ex_task, ex_future_task\<lparr>t_title := ''Plan B'', t_updated_at := 20\<rparr>]\<rparr>"
  have ids: "t_id ex_task = ''t1''" "t_id ex_future_task = ''t2''"
    "t_user_id ex_task = ''u1''" "t_user_id ex_future_task = ''u1''"
    by (simp_all add: ex_task_def ex_future_task_def)
  have rows: "tasks ex_db_future = [ex_task, ex_future_task]"
    by (simp add: ex_db_future_def)
  have upd: "rls_update ex_db_future (Some ''u1'') Tasks t_user_id (task_with_id ''t2'')
               (\<lambda>r. update_tasks_updated_at 20 (set_title ''Plan B'' r)) (tasks ex_db_future)
             = Inr [ex_task, ex_future_task\<lparr>t_title := ''Plan B'', t_updated_at := 20\<rparr>]"
    by (simp add: rls_update_def touched_def rows ids task_with_id_def set_title_def
          update_tasks_updated_at_def using_ok_Tasks check_ok_Tasks)
  have ok: "unique_ok ?d'" "fk_ok ?d'"
    by (simp_all add: constraint_defs ex_db_future_def ex_defs ex_future_task_def)
  show ?thesis
    by (simp add: update_tasks_def upd commit_ok [OF ok])
qed

text \<open>
  Without the condition on the stored value the last part fails. No trigger runs on
  \<^verbatim>\<open>INSERT\<close>, and \<^verbatim>\<open>updated_at\<close> has a default, not a constraint: the owner \<open>u1\<close> inserts a
  task with \<^verbatim>\<open>updated_at\<close> \<open>100\<close> and updates its title in a transaction whose \<^verbatim>\<open>now()\<close> is
  \<open>20\<close>; the row's \<^verbatim>\<open>updated_at\<close> goes from \<open>100\<close> to \<open>20\<close>.
\<close>

theorem updated_at_decreases_counterexample:
  "insert_tasks ex_db (Some ''u1'') ex_future_task = Inr ex_db_future \<and>
   tasks ex_db_future ! 1 = ex_future_task \<and>
   touched ex_db_future (Some ''u1'') Update Tasks t_user_id (task_with_id ''t2'') (tasks ex_db_future ! 1) \<and>
   t_updated_at (tasks ex_db_future ! 1) = 100 \<and>
   t_updated_at (tasks (stored ex_db_future
      (update_tasks ex_db_future (Some ''u1'') (task_with_id ''t2'') (set_title ''Plan B'') 20)) ! 1) = 20 \<and>
   \<not> t_updated_at (tasks ex_db_future ! 1)
       \<le> t_updated_at (tasks (stored ex_db_future
            (update_tasks ex_db_future (Some ''u1'') (task_with_id ''t2'') (set_title ''Plan B'') 20)) ! 1)"
proof -
  have "tasks ex_db_future ! 1 = ex_future_task"
    by (simp add: ex_db_future_def)
  moreover have "t_updated_at ex_future_task = 100" "t_id ex_future_task = ''t2''"
    "t_user_id ex_future_task = ''u1''"
    by (simp_all add: ex_future_task_def)
  ultimately show ?thesis
    by (simp add: ex_insert_future ex_update_future stored_def touched_def task_with_id_def
          using_ok_Tasks)
qed


lemma ex_rows:
  "profiles ex_db ! 0 = \<lparr>p_id = ''u1'', p_display_name = Some ''ann'', p_avatar_url = None,
      p_bio = None, p_created_at = 1, p_updated_at = 1\<rparr>"
  "categories ex_db ! 0 = ex_work" "tasks ex_db ! 0 = ex_task" "subtasks ex_db ! 0 = ex_subtask"
  "length (profiles ex_db) = 3" "length (categories ex_db) = 1" "length (tasks ex_db) = 1"
  "length (subtasks ex_db) = 1"
  by (simp_all add: ex_db_def)

lemma ex_owner_touches:
  "touched ex_db (Some ''u1'') Update Profiles p_id (profile_with_id ''u1'') (profiles ex_db ! 0)"
  "touched ex_db (Some ''u1'') Update Categories c_user_id (category_with_id ''c1'') (categories ex_db ! 0)"
  "touched ex_db (Some ''u1'') Update Tasks t_user_id (task_with_id ''t1'') (tasks ex_db ! 0)"
  "touched ex_db (Some ''u1'') Update Subtasks st_user_id (subtask_with_id ''s1'') (subtasks ex_db ! 0)"
  by (simp_all add: ex_rows touched_def using_ok_simps profile_with_id_def category_with_id_def
        task_with_id_def subtask_with_id_def ex_work_def ex_task_def ex_subtask_def)

lemma ex_update_profiles_runs:
  "\<exists>d'. update_profiles ex_db (Some ''u1'') (profile_with_id ''u1'') (set_bio ''hi'') 20 = Inr d'"
  apply (simp add: update_profiles_def rls_update_def touched_def using_ok_Profiles check_ok_Profiles)
  apply (simp add: ex_defs commit_def constraint_defs profile_with_id_def set_bio_def
           update_profiles_updated_at_def)
  done

lemma ex_update_categories_runs:
  "\<exists>d'. update_categories ex_db (Some ''u1'') (category_with_id ''c1'') (set_color ''#000000'') 20 = Inr d'"
  apply (simp add: update_categories_def rls_update_def touched_def using_ok_Categories check_ok_Categories)
  apply (simp add: ex_defs commit_def constraint_defs category_with_id_def set_color_def
           update_categories_updated_at_def)
  done

lemma ex_update_tasks_runs:
  "\<exists>d'. update_tasks ex_db (Some ''u1'') (task_with_id ''t1'') (set_title ''Write it'') 20 = Inr d'"
  apply (simp add: update_tasks_def rls_update_def touched_def using_ok_Tasks check_ok_Tasks)
  apply (simp add: ex_defs commit_def constraint_defs task_with_id_def set_title_def
           update_tasks_updated_at_def)
  done

lemma ex_update_subtasks_runs:
  "\<exists>d'. update_subtasks ex_db (Some ''u1'') (subtask_with_id ''s1'') (set_is_completed True) 20 = Inr d'"
  apply (simp add: update_subtasks_def rls_update_def touched_def using_ok_Subtasks check_ok_Subtasks)
  apply (simp add: ex_defs commit_def constraint_defs subtask_with_id_def set_is_completed_def
           update_subtasks_updated_at_def)
  done

theorem update_overwrites_updated_at_witness:
  "(\<exists>d'. update_profiles ex_db (Some ''u1'') (profile_with_id ''u1'') (set_bio ''hi'') 20 = Inr d' \<and>
      touched ex_db (Some ''u1'') Update Profiles p_id (profile_with_id ''u1'') (profiles ex_db ! 0) \<and>
      p_updated_at (profiles d' ! 0) = 20) \<and>
   (\<exists>d'. update_categories ex_db (Some ''u1'') (category_with_id ''c1'') (set_color ''#000000'') 20 = Inr d' \<and>
      touched ex_db (Some ''u1'') Update Categories c_user_id (category_with_id ''c1'') (categories ex_db ! 0) \<and>
      c_updated_at (categories d' ! 0) = 20) \<and>
   (\<exists>d'. update_tasks ex_db (Some ''u1'') (task_with_id ''t1'') (set_title ''Write it'') 20 = Inr d' \<and>
      touched ex_db (Some ''u1'') Update Tasks t_user_id (task_with_id ''t1'') (tasks ex_db ! 0) \<and>
      t_updated_at (tasks ex_db ! 0) \<le> 20 \<and>
      t_updated_at (tasks d' ! 0) = 20 \<and>
      t_updated_at (tasks ex_db ! 0) \<le> t_updated_at (tasks d' ! 0)) \<and>
   (\<exists>d'. update_subtasks ex_db (Some ''u1'') (subtask_with_id ''s1'') (set_is_completed True) 20 = Inr d' \<and>
      touched ex_db (Some ''u1'') Update Subtasks st_user_id (subtask_with_id ''s1'') (subtasks ex_db ! 0) \<and>
      st_updated_at (subtasks d' ! 0) = 20)"
proof -
  note inst = update_overwrites_updated_at [of ex_db "Some ''u1''" "profile_with_id ''u1''"
      "set_bio ''hi''" 20 "category_with_id ''c1''" "set_color ''#000000''"
      "task_with_id ''t1''" "set_title ''Write it''" "subtask_with_id ''s1''"
      "set_is_completed True"]
  have old: "t_updated_at (tasks ex_db ! 0) \<le> 20"
    by (simp add: ex_rows ex_task_def)
  obtain d1 where d1: "update_profiles ex_db (Some ''u1'') (profile_with_id ''u1'') (set_bio ''hi'') 20 = Inr d1"
    using ex_update_profiles_runs by blast
  obtain d2 where d2: "update_categories ex_db (Some ''u1'') (category_with_id ''c1'') (set_color ''#000000'') 20 = Inr d2"
    using ex_update_categories_runs by blast
  obtain d3 where d3: "update_tasks ex_db (Some ''u1'') (task_with_id ''t1'') (set_title ''Write it'') 20 = Inr d3"
    using ex_update_tasks_runs by blast
  obtain d4 where d4: "update_subtasks ex_db (Some ''u1'') (subtask_with_id ''s1'') (set_is_completed True) 20 = Inr d4"
    using ex_update_subtasks_runs by blast
  from inst d1 ex_owner_touches(1) have "p_updated_at (profiles d1 ! 0) = 20"
    by (simp add: ex_rows(5))
  moreover from inst d2 ex_owner_touches(2) have "c_updated_at (categories d2 ! 0) = 20"
    by (simp add: ex_rows(6))
  moreover from inst d3 ex_owner_touches(3) old have "t_updated_at (tasks d3 ! 0) = 20"
    by (simp add: ex_rows(7))
  moreover from inst d4 ex_owner_touches(4) have "st_updated_at (subtasks d4 ! 0) = 20"
    by (simp add: ex_rows(8))
  ultimately show ?thesis
    using d1 d2 d3 d4 ex_owner_touches old by simp
qed

subsection \<open>Completion time and status\<close>

lemma completion_consistent_updated_at [simp]:
  "completion_consistent (r\<lparr>t_updated_at := x\<rparr>) = completion_consistent r"
  by (simp add: completion_consistent_def)

lemma update_tasks_consistent:
  assumes "update_tasks d uid wh assign now = Inr d'" and "tasks_consistent d"
    and "\<And>r. completion_consistent r \<Longrightarrow> completion_consistent (assign r)"
  shows "tasks_consistent d'"
  using assms(2,3) unfolding update_tasks_Inr [OF assms(1)]
  by (auto simp: tasks_consistent_def list_all_iff)

lemma update_tasks_written:
  assumes "update_tasks d uid wh assign now = Inr d'" and "r \<in> set (tasks d')"
    and "r \<notin> set (tasks d)"
  shows "\<exists>r0 \<in> set (tasks d). r = (assign r0)\<lparr>t_updated_at := now\<rparr>"
  using assms(2,3) unfolding update_tasks_Inr [OF assms(1)]
  by (auto split: if_splits)

lemma insert_tasks_Inr: "insert_tasks d uid row = Inr d' \<Longrightarrow> d' = d\<lparr>tasks := tasks d @ [row]\<rparr>"
  by (auto simp: insert_tasks_def split: if_splits dest: commit_Inr)

lemma delete_tasks_subset: "delete_tasks d uid wh = Inr d' \<Longrightarrow> set (tasks d') \<subseteq> set (tasks d)"
  by (auto simp: delete_tasks_def Let_def rls_delete_def)

lemma payload_consistent:
  "completion_consistent (assign_payload (saveTask_payload form client_now) r)"
  "completion_consistent (payload_row (saveTask_payload form client_now) u new_id db_now)"
  by (simp_all add: completion_consistent_def assign_payload_def payload_row_def saveTask_payload_def)

lemma saveTask_consistent:
  assumes "saveTask d user form editingTask client_now db_now new_id = Inr d'"
    and "tasks_consistent d"
  shows "tasks_consistent d'"
proof (cases "user = None \<or> trim (f_title form) = []")
  case True
  with assms show ?thesis
    by (auto simp: saveTask_def split: option.splits)
next
  case False
  then obtain u where u: "user = Some u" and title: "trim (f_title form) \<noteq> []"
    by auto
  show ?thesis
  proof (cases editingTask)
    case None
    with assms(1) u title
    have "insert_tasks d user (payload_row (saveTask_payload form client_now) u new_id db_now) = Inr d'"
      by (simp add: saveTask_def)
    from insert_tasks_Inr [OF this] assms(2) show ?thesis
      by (simp add: tasks_consistent_def payload_consistent)
  next
    case (Some et)
    with assms(1) u title
    have "update_tasks d user (\<lambda>r. t_id r = t_id et)
            (assign_payload (saveTask_payload form client_now)) db_now = Inr d'"
      by (simp add: saveTask_def)
    then show ?thesis
      using assms(2) by (rule update_tasks_consistent) (rule payload_consistent)
  qed
qed

lemma toggleStar_consistent:
  assumes "toggleStar d user task db_now = Inr d'" and "tasks_consistent d"
  shows "tasks_consistent d'"
  using assms unfolding toggleStar_def
  by (rule update_tasks_consistent) (simp add: completion_consistent_def)

lemma toggleStatus_consistent:
  assumes "toggleStatus d user task client_now db_now = Inr d'" and "tasks_consistent d"
  shows "tasks_consistent d'"
  using assms unfolding toggleStatus_def Let_def
  by (rule update_tasks_consistent) (simp add: completion_consistent_def)

lemma deleteTask_consistent:
  assumes "deleteTask d user task_id = Inr d'" and "tasks_consistent d"
  shows "tasks_consistent d'"
  using delete_tasks_subset [of d user _ d'] assms
  by (auto simp: deleteTask_def tasks_consistent_def list_all_iff)

lemma stored_consistent:
  assumes "\<And>d'. res = Inr d' \<Longrightarrow> tasks_consistent d'" and "tasks_consistent d"
  shows "tasks_consistent (stored d res)"
  using assms by (cases res) (simp_all add: stored_def)

lemma app_step_consistent: "tasks_consistent d \<Longrightarrow> tasks_consistent (app_step d w)"
proof (cases w)
  case (SaveTask user form editingTask client_now db_now new_id)
  assume "tasks_consistent d"
  then show ?thesis
    unfolding SaveTask app_step.simps
    by (intro stored_consistent) (auto intro: saveTask_consistent)
next
  case (ToggleStar user task db_now)
  assume "tasks_consistent d"
  then show ?thesis
    unfolding ToggleStar app_step.simps
    by (intro stored_consistent) (auto intro: toggleStar_consistent)
next
  case (ToggleStatus user task client_now db_now)
  assume "tasks_consistent d"
  then show ?thesis
    unfolding ToggleStatus app_step.simps
    by (intro stored_consistent) (auto intro: toggleStatus_consistent)
next
  case (DeleteTask user task_id)
  assume "tasks_consistent d"
  then show ?thesis
    unfolding DeleteTask app_step.simps
    by (intro stored_consistent) (auto intro: deleteTask_consistent)
qed

lemma app_run_consistent: "tasks_consistent d \<Longrightarrow> tasks_consistent (app_run d ws)"
  unfolding app_run_def
  by (induction ws arbitrary: d) (simp_all add: app_step_consistent)


text \<open>
  Claim C5. The client writes to \<^verbatim>\<open>tasks\<close> through \<^verbatim>\<open>saveTask\<close>, \<^verbatim>\<open>toggleStar\<close>,
  \<^verbatim>\<open>toggleStatus\<close> and \<^verbatim>\<open>deleteTask\<close>. Whatever sequence of these writes is applied, by
  whichever identities and with whichever arguments, if \<^verbatim>\<open>completed_at\<close> is non-null
  exactly for the completed tasks before, then so it is after; it is so in particular in
  every state reached from the empty database. Every row that \<^verbatim>\<open>saveTask\<close> stores or
  changes has the form's status, and has \<^verbatim>\<open>completed_at\<close> equal to the time of the write
  when that status is \<^verbatim>\<open>completed\<close> and null otherwise; every row that \<^verbatim>\<open>toggleStatus\<close>
  changes is either completed with \<^verbatim>\<open>completed_at\<close> the time of the write or pending with
  \<^verbatim>\<open>completed_at\<close> null.
\<close>

theorem completed_at_tracks_status:
  "(tasks_consistent d \<longrightarrow> tasks_consistent (app_run d ws)) \<and>
   tasks_consistent (app_run empty_db ws) \<and>
   (\<forall>d'. saveTask d user form editingTask client_now db_now new_id = Inr d' \<longrightarrow>
      (\<forall>r \<in> set (tasks d'). r \<notin> set (tasks d) \<longrightarrow>
         t_status r = f_status form \<and>
         t_completed_at r = (if f_status form = Completed then Some client_now else None))) \<and>
   (\<forall>d'. toggleStatus d user task client_now db_now = Inr d' \<longrightarrow>
      (\<forall>r \<in> set (tasks d'). r \<notin> set (tasks d) \<longrightarrow>
         t_status r = (if t_status task = Completed then Pending else Completed) \<and>
         t_completed_at r = (if t_status task = Completed then None else Some client_now)))"
proof -
  have run: "tasks_consistent d \<longrightarrow> tasks_consistent (app_run d ws)"
    by (simp add: app_run_consistent)
  have "tasks_consistent empty_db"
    by (simp add: tasks_consistent_def empty_db_def)
  then have fresh: "tasks_consistent (app_run empty_db ws)"
    by (rule app_run_consistent)
  have save: "\<forall>d'. saveTask d user form editingTask client_now db_now new_id = Inr d' \<longrightarrow>
      (\<forall>r \<in> set (tasks d'). r \<notin> set (tasks d) \<longrightarrow>
         t_status r = f_status form \<and>
         t_completed_at r = (if f_status form = Completed then Some client_now else None))"
  proof (intro allI impI ballI)
    fix d' r
    assume s: "saveTask d user form editingTask client_now db_now new_id = Inr d'"
      and r: "r \<in> set (tasks d')" "r \<notin> set (tasks d)"
    let ?pl = "saveTask_payload form client_now"
    from r s obtain u where u: "user = Some u" and title: "trim (f_title form) \<noteq> []"
      by (cases user; cases "trim (f_title form) = []") (auto simp: saveTask_def)
    have "(\<exists>r0. r = (assign_payload ?pl r0)\<lparr>t_updated_at := db_now\<rparr>) \<or>
          r = payload_row ?pl u new_id db_now"
    proof (cases editingTask)
      case None
      with s u title have "insert_tasks d user (payload_row ?pl u new_id db_now) = Inr d'"
        by (simp add: saveTask_def)
      from insert_tasks_Inr [OF this] r show ?thesis by simp
    next
      case (Some et)
      with s u title
      have "update_tasks d user (\<lambda>r. t_id r = t_id et) (assign_payload ?pl) db_now = Inr d'"
        by (simp add: saveTask_def)
      from update_tasks_written [OF this r] show ?thesis by blast
    qed
    then show "t_status r = f_status form \<and>
         t_completed_at r = (if f_status form = Completed then Some client_now else None)"
      by (auto simp: assign_payload_def payload_row_def saveTask_payload_def)
  qed
  have toggle: "\<forall>d'. toggleStatus d user task client_now db_now = Inr d' \<longrightarrow>
      (\<forall>r \<in> set (tasks d'). r \<notin> set (tasks d) \<longrightarrow>
         t_status r = (if t_status task = Completed then Pending else Completed) \<and>
         t_completed_at r = (if t_status task = Completed then None else Some client_now))"
  proof (intro allI impI ballI)
    fix d' r
    assume s: "toggleStatus d user task client_now db_now = Inr d'"
      and r: "r \<in> set (tasks d')" "r \<notin> set (tasks d)"
    from update_tasks_written [OF s [unfolded toggleStatus_def Let_def] r]
    show "t_status r = (if t_status task = Completed then Pending else Completed) \<and>
         t_completed_at r = (if t_status task = Completed then None else Some client_now)"
      by auto
  qed
  from run fresh save toggle show ?thesis by (intro conjI)
qed


lemma ex_trim: "trim '' Buy milk '' = ''Buy milk''" "trim ''home'' = ''home''" "trim '' shop'' = ''shop''"
  by (simp_all add: trim_def is_white_space_def)

lemma ex_payload:
  "saveTask_payload ex_form 40 =
     \<lparr>pl_title = ''Buy milk'', pl_description = None, pl_status = Pending, pl_priority = Medium,
      pl_due_date = None, pl_category_id = None, pl_tags = [''home'', ''shop''],
      pl_is_starred = False, pl_completed_at = None\<rparr>"
  by (simp add: saveTask_payload_def ex_form_def or_null_def ex_trim)

lemma ex_created_task_cols:
  "t_id ex_created_task = ''t3''" "t_user_id ex_created_task = ''u1''"
  "t_category_id ex_created_task = None" "t_status ex_created_task = Pending"
  "t_completed_at ex_created_task = None" "t_title ex_created_task = ''Buy milk''"
  "t_tags ex_created_task = Some [''home'', ''shop'']"
  by (simp_all add: ex_created_task_def payload_row_def ex_payload)

lemma ex_saved_constraints:
  "unique_ok (ex_db\<lparr>tasks := [ex_task, x]\<rparr>) \<longleftrightarrow> t_id x \<noteq> ''t1''"
  "t_user_id x = ''u1'' \<Longrightarrow> t_category_id x = None \<Longrightarrow> fk_ok (ex_db\<lparr>tasks := [ex_task, x]\<rparr>) "
  by (auto simp: constraint_defs ex_defs)

lemma ex_save:
  "saveTask ex_db (Some ''u1'') ex_form None 40 41 ''t3'' = Inr (ex_db\<lparr>tasks := [ex_task, ex_created_task]\<rparr>)"
proof -
  have "ex_db\<lparr>tasks := tasks ex_db @ [ex_created_task]\<rparr> = ex_db\<lparr>tasks := [ex_task, ex_created_task]\<rparr>"
    by (simp add: ex_db_def)
  moreover have "commit (ex_db\<lparr>tasks := [ex_task, ex_created_task]\<rparr>) = Inr (ex_db\<lparr>tasks := [ex_task, ex_created_task]\<rparr>)"
    by (rule commit_ok) (simp_all add: ex_saved_constraints ex_created_task_cols)
  moreover have "trim (f_title ex_form) \<noteq> []"
    by (simp add: ex_form_def ex_trim)
  ultimately show ?thesis
    by (simp add: saveTask_def insert_tasks_def check_ok_Tasks ex_created_task_def [symmetric]
          ex_created_task_cols)
qed

lemma ex_toggle:
  "toggleStatus (ex_db\<lparr>tasks := [ex_task, ex_created_task]\<rparr>) (Some ''u1'') ex_created_task 50 51 =
     Inr (ex_db\<lparr>tasks := [ex_task, ex_created_task\<lparr>t_status := Completed,
            t_completed_at := Some 50, t_updated_at := 51\<rparr>]\<rparr>)"
proof -
  let ?x = "ex_created_task\<lparr>t_status := Completed, t_completed_at := Some 50, t_updated_at := 51\<rparr>"
  have ids: "t_id ex_task = ''t1''" "t_user_id ex_task = ''u1''"
    by (simp_all add: ex_task_def)
  have "commit (ex_db\<lparr>tasks := [ex_task, ?x]\<rparr>) = Inr (ex_db\<lparr>tasks := [ex_task, ?x]\<rparr>)"
    by (rule commit_ok) (simp_all add: ex_saved_constraints ex_created_task_cols)
  then show ?thesis
    by (simp add: toggleStatus_def update_tasks_def rls_update_def touched_def using_ok_Tasks
          check_ok_Tasks update_tasks_updated_at_def ex_created_task_cols ids)
qed

lemma ex_run:
  "app_run ex_db ex_writes =
     ex_db\<lparr>tasks := [ex_task, ex_created_task\<lparr>t_status := Completed,
            t_completed_at := Some 50, t_updated_at := 51\<rparr>]\<rparr>"
  by (simp add: app_run_def ex_writes_def ex_save ex_toggle stored_def)

lemma ex_consistent: "tasks_consistent ex_db"
  by (simp add: tasks_consistent_def completion_consistent_def ex_db_def ex_task_def)

lemma differ_at: "f x \<noteq> f y \<Longrightarrow> x \<noteq> y"
  by auto

lemma ex_toggle_first:
  "toggleStatus ex_db (Some ''u1'') ex_task 50 51 =
     Inr (ex_db\<lparr>tasks := [ex_task\<lparr>t_status := Completed, t_completed_at := Some 50,
                                      t_updated_at := 51\<rparr>]\<rparr>)"
proof -
  let ?x = "ex_task\<lparr>t_status := Completed, t_completed_at := Some 50, t_updated_at := 51\<rparr>"
  have cols: "t_id ex_task = ''t1''" "t_user_id ex_task = ''u1''" "t_status ex_task = Pending"
    by (simp_all add: ex_task_def)
  have rows: "tasks ex_db = [ex_task]"
    by (simp add: ex_db_def)
  have "commit (ex_db\<lparr>tasks := [?x]\<rparr>) = Inr (ex_db\<lparr>tasks := [?x]\<rparr>)"
    by (rule commit_ok) (simp_all add: constraint_defs ex_defs)
  then show ?thesis
    by (simp add: toggleStatus_def update_tasks_def rls_update_def touched_def using_ok_Tasks
          check_ok_Tasks update_tasks_updated_at_def cols rows)
qed

theorem completed_at_tracks_status_witness:
  "tasks_consistent ex_db \<and> tasks_consistent (app_run ex_db ex_writes) \<and>
   map t_id (tasks (app_run ex_db ex_writes)) = [''t1'', ''t3''] \<and>
   map t_status (tasks (app_run ex_db ex_writes)) = [Pending, Completed] \<and>
   map t_completed_at (tasks (app_run ex_db ex_writes)) = [None, Some 50] \<and>
   saveTask ex_db (Some ''u1'') ex_form None 40 41 ''t3''
     = Inr (ex_db\<lparr>tasks := [ex_task, ex_created_task]\<rparr>) \<and>
   ex_created_task \<notin> set (tasks ex_db) \<and>
   t_status ex_created_task = f_status ex_form \<and> t_completed_at ex_created_task = None \<and>
   toggleStatus ex_db (Some ''u1'') ex_task 50 51
     = Inr (ex_db\<lparr>tasks := [ex_task\<lparr>t_status := Completed, t_completed_at := Some 50,
                                       t_updated_at := 51\<rparr>]\<rparr>) \<and>
   ex_task\<lparr>t_status := Completed, t_completed_at := Some 50, t_updated_at := 51\<rparr>
     \<notin> set (tasks ex_db)"
proof -
  note save = completed_at_tracks_status [of ex_db ex_writes "Some ''u1''" ex_form None 40 41 "''t3''"]
  note toggle = completed_at_tracks_status [of ex_db ex_writes "Some ''u1''" _ _ 50 51 _ ex_task]
  from save ex_consistent
  have run: "tasks_consistent (app_run ex_db ex_writes)" by blast
  have cols: "map t_id (tasks (app_run ex_db ex_writes)) = [''t1'', ''t3'']"
    "map t_status (tasks (app_run ex_db ex_writes)) = [Pending, Completed]"
    "map t_completed_at (tasks (app_run ex_db ex_writes)) = [None, Some 50]"
    by (simp_all add: ex_run ex_created_task_cols) (simp_all add: ex_task_def)
  have new: "ex_created_task \<notin> set (tasks ex_db)"
    "ex_task\<lparr>t_status := Completed, t_completed_at := Some 50, t_updated_at := 51\<rparr>
       \<notin> set (tasks ex_db)"
    "ex_created_task \<in> set (tasks (ex_db\<lparr>tasks := [ex_task, ex_created_task]\<rparr>))"
  proof -
    have "t_id ex_created_task \<noteq> t_id ex_task"
      by (simp add: ex_created_task_cols ex_task_def)
    then have "ex_created_task \<noteq> ex_task" by auto
    then show "ex_created_task \<notin> set (tasks ex_db)"
      by (simp add: ex_db_def)
    have "ex_task\<lparr>t_status := Completed, t_completed_at := Some 50, t_updated_at := 51\<rparr>
                 \<noteq> ex_task"
      by (rule differ_at [where f = t_status]) (simp add: ex_task_def)
    then show "ex_task\<lparr>t_status := Completed, t_completed_at := Some 50, t_updated_at := 51\<rparr>
       \<notin> set (tasks ex_db)"
      by (simp add: ex_db_def)
    show "ex_created_task \<in> set (tasks (ex_db\<lparr>tasks := [ex_task, ex_created_task]\<rparr>))"
      by simp
  qed
  from save ex_save new(1,3)
  have "t_status ex_created_task = f_status ex_form \<and>
        t_completed_at ex_created_task = (if f_status ex_form = Completed then Some 40 else None)"
    by blast
  then have saved: "t_status ex_created_task = f_status ex_form"
    "t_completed_at ex_created_task = None"
    by (simp_all add: ex_form_def)
  from toggle ex_toggle_first new(2)
  have "t_status (ex_task\<lparr>t_status := Completed, t_completed_at := Some 50, t_updated_at := 51\<rparr>)
          = (if t_status ex_task = Completed then Pending else Completed)"
    by simp
  with run cols new(1,2) saved ex_save ex_toggle_first ex_consistent show ?thesis
    by simp
qed

subsection \<open>Promotion to admin\<close>

lemma commit_cases: "commit d = Inr d \<or> (\<exists>e. commit d = Inl e)"
  by (simp add: commit_def)

text \<open>
  Claim C9, as amended. Let \<^verbatim>\<open>gen_random_uuid()\<close> return an unused value. Then
  \<^verbatim>\<open>promoteToAdmin\<close> never changes or removes a stored \<^verbatim>\<open>user_roles\<close> row: the table
  afterwards is the table before, followed by what was added, so every role an identity
  held it still holds. When the state satisfies its constraints, the requester holds
  \<^verbatim>\<open>admin\<close>, and \<open>u\<close> is an identity that does not hold \<^verbatim>\<open>admin\<close> yet, the call succeeds
  and adds exactly the row (\<open>u\<close>, \<^verbatim>\<open>admin\<close>) and nothing else; afterwards \<open>u\<close> holds
  \<^verbatim>\<open>admin\<close>, and \<^verbatim>\<open>user\<close> as well if it did before. When \<open>u\<close> holds \<^verbatim>\<open>admin\<close> already,
  the call of an admin fails with the uniqueness violation; when the requester does not
  hold \<^verbatim>\<open>admin\<close>, it fails with a policy violation.
\<close>

theorem promoteToAdmin_additive:
  assumes "new_id \<notin> ur_id ` set (user_roles d)"
  shows "(\<exists>extra. user_roles (stored d (promoteToAdmin d caller u now new_id)) = user_roles d @ extra) \<and>
         (\<forall>v r. has_role d v r \<longrightarrow> has_role (stored d (promoteToAdmin d caller u now new_id)) v r) \<and>
         (unique_ok d \<and> fk_ok d \<and> user_exists d u \<and> \<not> has_role d u Admin \<and>
          (\<exists>a. caller = Some a \<and> has_role d a Admin) \<longrightarrow>
            (\<exists>d'. promoteToAdmin d caller u now new_id = Inr d' \<and>
               d' = d\<lparr>user_roles := user_roles d @
                      [\<lparr>ur_id = new_id, ur_user_id = u, ur_role = Admin, ur_created_at = now\<rparr>]\<rparr> \<and>
               has_role d' u Admin \<and>
               (has_role d u User \<longrightarrow> has_role d' u User))) \<and>
         (has_role d u Admin \<and> (\<exists>a. caller = Some a \<and> has_role d a Admin) \<longrightarrow>
            promoteToAdmin d caller u now new_id = Inl UniqueViolation) \<and>
         (\<not> (\<exists>a. caller = Some a \<and> has_role d a Admin) \<longrightarrow>
            promoteToAdmin d caller u now new_id = Inl RlsViolation)"
proof -
  let ?row = "\<lparr>ur_id = new_id, ur_user_id = u, ur_role = Admin, ur_created_at = now\<rparr>"
  let ?d' = "d\<lparr>user_roles := user_roles d @ [?row]\<rparr>"
  have fresh: "new_id \<notin> set (map ur_id (user_roles d))"
    using assms by simp
  have shape: "promoteToAdmin d caller u now new_id =
      (if \<not> check_ok d caller Insert UserRoles u then Inl RlsViolation else commit ?d')"
    using fresh by (simp add: promoteToAdmin_def upsert_user_roles_def)
  have cases: "stored d (promoteToAdmin d caller u now new_id) = d \<or>
               stored d (promoteToAdmin d caller u now new_id) = ?d'"
    using commit_cases [of ?d'] by (auto simp: shape stored_def)
  then have frame: "\<exists>extra. user_roles (stored d (promoteToAdmin d caller u now new_id))
                      = user_roles d @ extra"
    by auto
  from cases have keep: "\<forall>v r. has_role d v r \<longrightarrow>
      has_role (stored d (promoteToAdmin d caller u now new_id)) v r"
    by (auto simp: has_role_iff)
  have pol: "check_ok d caller Insert UserRoles u \<longleftrightarrow> (\<exists>a. caller = Some a \<and> has_role d a Admin)"
    by (cases caller) (simp_all add: check_ok_UserRoles)
  have promote: "unique_ok d \<and> fk_ok d \<and> user_exists d u \<and> \<not> has_role d u Admin \<and>
          (\<exists>a. caller = Some a \<and> has_role d a Admin) \<longrightarrow>
            (\<exists>d'. promoteToAdmin d caller u now new_id = Inr d' \<and> d' = ?d' \<and>
               has_role d' u Admin \<and> (has_role d u User \<longrightarrow> has_role d' u User))"
  proof (intro impI)
    assume h: "unique_ok d \<and> fk_ok d \<and> user_exists d u \<and> \<not> has_role d u Admin \<and>
          (\<exists>a. caller = Some a \<and> has_role d a Admin)"
    have pre: "user_exists d (ur_user_id ?row)" "ur_id ?row \<notin> ur_id ` set (user_roles d)"
      "\<forall>e \<in> set (user_roles d). \<not> (ur_user_id e = ur_user_id ?row \<and> ur_role e = ur_role ?row)"
      using h assms by (auto simp: has_role_iff)
    from h have ok: "unique_ok d" "fk_ok d" by simp_all
    have "commit ?d' = Inr ?d'"
      by (rule commit_ok) (rule add_role_ok [OF ok pre])+
    then have "promoteToAdmin d caller u now new_id = Inr ?d'"
      using h by (simp add: shape pol)
    then show "\<exists>d'. promoteToAdmin d caller u now new_id = Inr d' \<and> d' = ?d' \<and>
               has_role d' u Admin \<and> (has_role d u User \<longrightarrow> has_role d' u User)"
      by (auto simp: has_role_iff)
  qed
  have again: "has_role d u Admin \<and> (\<exists>a. caller = Some a \<and> has_role d a Admin) \<longrightarrow>
            promoteToAdmin d caller u now new_id = Inl UniqueViolation"
  proof (intro impI)
    assume h: "has_role d u Admin \<and> (\<exists>a. caller = Some a \<and> has_role d a Admin)"
    then obtain e where "e \<in> set (user_roles d)" "ur_user_id e = u" "ur_role e = Admin"
      by (auto simp: has_role_iff)
    then have "(u, Admin) \<in> (\<lambda>r. (ur_user_id r, ur_role r)) ` set (user_roles d)"
      by force
    then have "\<not> unique_ok ?d'"
      by (simp add: unique_ok_def)
    then show "promoteToAdmin d caller u now new_id = Inl UniqueViolation"
      using h by (simp add: shape pol commit_def)
  qed
  have denied: "\<not> (\<exists>a. caller = Some a \<and> has_role d a Admin) \<longrightarrow>
            promoteToAdmin d caller u now new_id = Inl RlsViolation"
    by (simp add: shape pol)
  from frame keep promote again denied show ?thesis by (intro conjI)
qed

lemma ex_promote_pre:
  "''r5'' \<notin> ur_id ` set (user_roles ex_db)" "user_exists ex_db ''u2''"
  by (simp_all add: user_exists_def ex_defs)

theorem promoteToAdmin_additive_witness:
  "''r5'' \<notin> ur_id ` set (user_roles ex_db) \<and>
   unique_ok ex_db \<and> fk_ok ex_db \<and> user_exists ex_db ''u2'' \<and> \<not> has_role ex_db ''u2'' Admin \<and>
   has_role ex_db ''adm'' Admin \<and> has_role ex_db ''u2'' User \<and>
   promoteToAdmin ex_db (Some ''adm'') ''u2'' 60 ''r5'' =
     Inr (ex_db\<lparr>user_roles := user_roles ex_db @
            [\<lparr>ur_id = ''r5'', ur_user_id = ''u2'', ur_role = Admin, ur_created_at = 60\<rparr>]\<rparr>) \<and>
   has_role (stored ex_db (promoteToAdmin ex_db (Some ''adm'') ''u2'' 60 ''r5'')) ''u2'' Admin \<and>
   has_role (stored ex_db (promoteToAdmin ex_db (Some ''adm'') ''u2'' 60 ''r5'')) ''u2'' User \<and>
   promoteToAdmin ex_db (Some ''adm'') ''adm'' 60 ''r5'' = Inl UniqueViolation \<and>
   promoteToAdmin ex_db (Some ''u1'') ''u2'' 60 ''r5'' = Inl RlsViolation"
  using promoteToAdmin_additive [OF ex_promote_pre(1), of "Some ''adm''" "''u2''" 60]
    promoteToAdmin_additive [OF ex_promote_pre(1), of "Some ''adm''" "''adm''" 60]
    promoteToAdmin_additive [OF ex_promote_pre(1), of "Some ''u1''" "''u2''" 60]
    ex_promote_pre ex_constraints ex_has_role
  by (auto simp: stored_def)

text \<open>
  The claim as first stated promises a new row for every identity. The conflict target
  of the upsert is the primary key, which the generated \<^verbatim>\<open>id\<close> never hits, so the
  statement is a plain insert under \<^verbatim>\<open>UNIQUE (user_id, role)\<close>: promoting \<open>u2\<close> a second
  time fails with the uniqueness violation and adds no row.
\<close>

lemma ex_promoted_facts:
  "has_role ex_db_promoted ''adm'' Admin" "has_role ex_db_promoted ''u2'' Admin"
  "''r6'' \<notin> set (map ur_id (user_roles ex_db_promoted))"
  "ex_db\<lparr>user_roles := user_roles ex_db @
     [\<lparr>ur_id = ''r5'', ur_user_id = ''u2'', ur_role = Admin, ur_created_at = 60\<rparr>]\<rparr> = ex_db_promoted"
  by (simp_all add: has_role_def ex_db_promoted_def ex_roles_def ex_db_def)

lemma ex_promoted_again_clash:
  "\<not> unique_ok (ex_db_promoted\<lparr>user_roles := user_roles ex_db_promoted @
      [\<lparr>ur_id = ''r6'', ur_user_id = ''u2'', ur_role = Admin, ur_created_at = 61\<rparr>]\<rparr>)"
  by (simp add: unique_ok_def ex_db_promoted_def ex_roles_def)

theorem promote_twice_counterexample:
  "promoteToAdmin ex_db (Some ''adm'') ''u2'' 60 ''r5'' = Inr ex_db_promoted \<and>
   has_role ex_db_promoted ''adm'' Admin \<and>
   ''r6'' \<notin> set (map ur_id (user_roles ex_db_promoted)) \<and>
   promoteToAdmin ex_db_promoted (Some ''adm'') ''u2'' 61 ''r6'' = Inl UniqueViolation \<and>
   stored ex_db_promoted (promoteToAdmin ex_db_promoted (Some ''adm'') ''u2'' 61 ''r6'')
     = ex_db_promoted"
proof -
  have first: "promoteToAdmin ex_db (Some ''adm'') ''u2'' 60 ''r5'' = Inr ex_db_promoted"
  proof -
    have "commit ex_db_promoted = Inr ex_db_promoted"
      by (rule commit_ok) (simp_all add: constraint_defs ex_db_promoted_def ex_defs)
    then show ?thesis
      using ex_promote_pre(1)
      by (simp add: promoteToAdmin_def upsert_user_roles_def ex_promoted_facts(4))
  qed
  have again: "promoteToAdmin ex_db_promoted (Some ''adm'') ''u2'' 61 ''r6'' = Inl UniqueViolation"
    using ex_promoted_facts(3) ex_promoted_again_clash
    by (simp add: promoteToAdmin_def upsert_user_roles_def check_ok_UserRoles
          ex_promoted_facts(1) commit_def)
  from first again ex_promoted_facts(1,3) show ?thesis
    by (simp add: stored_def)
qed

end
